theory Spec2Isabelle
  imports Complex_Main
begin

section \<open>JavaScript values\<close>

text \<open>
  The generation module works on untyped JavaScript values: the raw field objects come
  from \<^verbatim>\<open>JSON.parse\<close>, from the array-aware query-string parser or from a request
  body. Numbers are IEEE doubles: a finite number is written as the rational value of
  the double, \<open>NaN\<close> and the two infinities are values of their own, and where the
  program computes in floating point (a number read from text, a product) the exact
  result is rounded to the nearest double by \<open>round_double\<close> below. A string is a list
  of characters, and the string functions below are those of the runtime on ASCII text. \<open>Fn\<close> is a built-in function object, named (the only one the normalizer can meet
  is \<^verbatim>\<open>Array.prototype.values\<close>).
\<close>

datatype jsnum = NaN | PosInf | NegInf | Fin rat

datatype jsval =
    Undefined
  | Null
  | Bool bool
  | Num jsnum
  | Str string
  | Arr "jsval list"
  | Obj "(string \<times> jsval) list"
  | Fn string

text \<open>ToBoolean: what \<^verbatim>\<open>x ? a : b\<close>, \<^verbatim>\<open>x && y\<close> and \<^verbatim>\<open>x || y\<close> test.\<close>

fun truthy :: "jsval \<Rightarrow> bool" where
  "truthy Undefined = False"
| "truthy Null = False"
| "truthy (Bool b) = b"
| "truthy (Num NaN) = False"
| "truthy (Num (Fin q)) = (q \<noteq> 0)"
| "truthy (Num PosInf) = True"
| "truthy (Num NegInf) = True"
| "truthy (Str s) = (s \<noteq> [])"
| "truthy (Arr xs) = True"
| "truthy (Obj kvs) = True"
| "truthy (Fn f) = True"

text \<open>\<^verbatim>\<open>Array.isArray\<close>.\<close>

fun isArray :: "jsval \<Rightarrow> bool" where
  "isArray (Arr xs) = True"
| "isArray v = False"

text \<open>
  Property read \<^verbatim>\<open>f.key\<close> on a value that is neither \<^verbatim>\<open>undefined\<close> nor \<^verbatim>\<open>null\<close>
  (on those the read raises a TypeError, which the callers below write out). A plain
  object answers with its own property; strings and arrays have \<^verbatim>\<open>length\<close>; arrays
  inherit the method \<^verbatim>\<open>values\<close>; a function has a \<^verbatim>\<open>name\<close> and a \<^verbatim>\<open>length\<close>, the
  number of its parameters, which is 0 for \<^verbatim>\<open>values\<close>; none of the other attribute names
  the normalizer reads is inherited from a built-in prototype.
\<close>

fun get_prop :: "jsval \<Rightarrow> string \<Rightarrow> jsval" where
  "get_prop (Obj kvs) k = (case map_of kvs k of Some v \<Rightarrow> v | None \<Rightarrow> Undefined)"
| "get_prop (Str s) k = (if k = ''length'' then Num (Fin (of_nat (length s))) else Undefined)"
| "get_prop (Arr xs) k =
     (if k = ''length'' then Num (Fin (of_nat (length xs)))
      else if k = ''values'' then Fn ''values''
      else Undefined)"
| "get_prop (Fn f) k =
     (if k = ''name'' then Str f else if k = ''length'' then Num (Fin 0) else Undefined)"
| "get_prop v k = Undefined"

subsection \<open>Rounding to a double\<close>

text \<open>
  The double nearest to a rational number, a tie going to the even significand: the
  rounding of every arithmetic result and of every number read from text. For a positive
  \<open>a\<close>, \<open>binade a\<close> is the exponent \<open>e\<close> with \<^verbatim>\<open>2^e <= a < 2^(e+1)\<close>, and \<open>ulp a\<close> is
  the distance between neighbouring doubles there: \<^verbatim>\<open>2^(e-52)\<close>, and \<^verbatim>\<open>2^-1074\<close> below
  the smallest normal number \<^verbatim>\<open>2^-1022\<close>. A result of magnitude \<^verbatim>\<open>2^1024\<close> or more is
  an infinity. The sign of a zero is not kept.
\<close>

function binade :: "rat \<Rightarrow> int" where
  "binade a =
     (if a \<le> 0 then 0
      else if 2 \<le> a then binade (a / 2) + 1
      else if a < 1 then binade (a * 2) - 1
      else 0)"
  by pat_completeness auto
termination
proof (relation "measure (\<lambda>a. if 1 \<le> a then nat \<lfloor>a\<rfloor> else nat \<lceil>1 / a\<rceil> + 1)")
  show "wf (measure (\<lambda>a::rat. if 1 \<le> a then nat \<lfloor>a\<rfloor> else nat \<lceil>1 / a\<rceil> + 1))"
    by simp
next
  fix a :: rat
  assume "\<not> a \<le> 0" and a: "2 \<le> a"
  have "a / 2 \<le> a - 1"
    using a by simp
  then have "\<lfloor>a / 2\<rfloor> \<le> \<lfloor>a - 1\<rfloor>"
    by (rule floor_mono)
  then have "\<lfloor>a / 2\<rfloor> < \<lfloor>a\<rfloor>"
    by simp
  moreover have "0 < \<lfloor>a\<rfloor>"
    using a by simp
  ultimately show "(a / 2, a) \<in> measure (\<lambda>a. if 1 \<le> a then nat \<lfloor>a\<rfloor> else nat \<lceil>1 / a\<rceil> + 1)"
    using a by simp
next
  fix a :: rat
  assume pos: "\<not> a \<le> 0" and "\<not> 2 \<le> a" and a: "a < 1"
  have x: "1 < 1 / a"
    using pos a by simp
  then have c: "2 \<le> \<lceil>1 / a\<rceil>"
    by (simp add: le_ceiling_iff)
  show "(a * 2, a) \<in> measure (\<lambda>a. if 1 \<le> a then nat \<lfloor>a\<rfloor> else nat \<lceil>1 / a\<rceil> + 1)"
  proof (cases "1 \<le> a * 2")
    case True
    have "\<lfloor>a * 2\<rfloor> = 1"
      using True a by (simp add: floor_eq_iff)
    then show ?thesis
      using True a c by simp
  next
    case False
    then have "2 \<le> 1 / a"
      using pos by (simp add: field_simps)
    then have "1 / (a * 2) \<le> 1 / a - 1"
      by (simp add: field_simps)
    then have "\<lceil>1 / (a * 2)\<rceil> \<le> \<lceil>1 / a - 1\<rceil>"
      by (rule ceiling_mono)
    then have "\<lceil>1 / (a * 2)\<rceil> < \<lceil>1 / a\<rceil>"
      by simp
    then show ?thesis
      using False pos a c by simp
  qed
qed

declare binade.simps [simp del]

definition ulp :: "rat \<Rightarrow> rat" where
  "ulp a = 2 powi (max (binade a) (- 1022) - 52)"

definition round_half_even :: "rat \<Rightarrow> int" where
  "round_half_even x =
     (if x - of_int \<lfloor>x\<rfloor> < 1 / 2 then \<lfloor>x\<rfloor>
      else if 1 / 2 < x - of_int \<lfloor>x\<rfloor> then \<lfloor>x\<rfloor> + 1
      else if even \<lfloor>x\<rfloor> then \<lfloor>x\<rfloor> else \<lfloor>x\<rfloor> + 1)"

definition round_double :: "rat \<Rightarrow> jsnum" where
  "round_double q =
     (if q = 0 then Fin 0
      else
        let r = of_int (round_half_even (\<bar>q\<bar> / ulp \<bar>q\<bar>)) * ulp \<bar>q\<bar>
        in if 2 ^ 1024 \<le> r then (if 0 < q then PosInf else NegInf)
           else Fin (if 0 < q then r else - r))"

subsection \<open>String to number\<close>

text \<open>
  \<^verbatim>\<open>Number(s)\<close> on a string: white space is trimmed, the empty string is 0, then one of
  \<^verbatim>\<open>Infinity\<close> (signed or not), a decimal literal with optional fraction and exponent,
  or an unsigned \<^verbatim>\<open>0x\<close>, \<^verbatim>\<open>0o\<close>, \<^verbatim>\<open>0b\<close> literal; anything else is \<open>NaN\<close>. The
  number is the double nearest to the value the literal denotes.
\<close>

definition is_ws :: "char \<Rightarrow> bool" where
  "is_ws c = (c \<in> set [CHR 0x20, CHR 0x09, CHR 0x0A, CHR 0x0B, CHR 0x0C, CHR 0x0D])"

definition trim :: "string \<Rightarrow> string" where
  "trim s = rev (dropWhile is_ws (rev (dropWhile is_ws s)))"

definition digit_of :: "char \<Rightarrow> nat option" where
  "digit_of c =
     (let n = of_char c :: nat in
      if 48 \<le> n \<and> n \<le> 57 then Some (n - 48)
      else if 97 \<le> n \<and> n \<le> 102 then Some (n - 87)
      else if 65 \<le> n \<and> n \<le> 70 then Some (n - 55)
      else None)"

definition is_digit :: "nat \<Rightarrow> char \<Rightarrow> bool" where
  "is_digit base c = (case digit_of c of Some d \<Rightarrow> d < base | None \<Rightarrow> False)"

definition digits_val :: "nat \<Rightarrow> string \<Rightarrow> nat" where
  "digits_val base s =
     foldl (\<lambda>acc c. acc * base + (case digit_of c of Some d \<Rightarrow> d | None \<Rightarrow> 0)) 0 s"

definition all_digits :: "nat \<Rightarrow> string \<Rightarrow> bool" where
  "all_digits base s = (s \<noteq> [] \<and> list_all (is_digit base) s)"

text \<open>The exponent part after \<^verbatim>\<open>e\<close>: an optional sign and at least one digit.\<close>

definition exponent_of :: "string \<Rightarrow> int option" where
  "exponent_of s =
     (case s of
        [] \<Rightarrow> None
      | c # r \<Rightarrow>
          if c = CHR ''-'' then (if all_digits 10 r then Some (- int (digits_val 10 r)) else None)
          else if c = CHR ''+'' then (if all_digits 10 r then Some (int (digits_val 10 r)) else None)
          else if all_digits 10 s then Some (int (digits_val 10 s)) else None)"

text \<open>The mantissa: digits, optionally a dot and more digits; at least one digit in all.\<close>

definition mantissa_of :: "string \<Rightarrow> rat option" where
  "mantissa_of s =
     (let ip = takeWhile (is_digit 10) s; r = dropWhile (is_digit 10) s in
      case r of
        [] \<Rightarrow> if ip = [] then None else Some (of_nat (digits_val 10 ip))
      | c # fp \<Rightarrow>
          if c = CHR ''.'' \<and> list_all (is_digit 10) fp \<and> (ip \<noteq> [] \<or> fp \<noteq> [])
          then Some (of_nat (digits_val 10 ip) + of_nat (digits_val 10 fp) / 10 ^ length fp)
          else None)"

definition unsigned_decimal :: "string \<Rightarrow> jsnum" where
  "unsigned_decimal s =
     (if s = ''Infinity'' then PosInf
      else
        let m = takeWhile (\<lambda>c. c \<noteq> CHR ''e'' \<and> c \<noteq> CHR ''E'') s;
            r = dropWhile (\<lambda>c. c \<noteq> CHR ''e'' \<and> c \<noteq> CHR ''E'') s
        in case mantissa_of m of
             None \<Rightarrow> NaN
           | Some q \<Rightarrow>
               (case r of
                  [] \<Rightarrow> round_double q
                | _ # e \<Rightarrow>
                    (case exponent_of e of
                       None \<Rightarrow> NaN
                     | Some k \<Rightarrow>
                         round_double (if 0 \<le> k then q * 10 ^ nat k else q / 10 ^ nat (- k)))))"

fun neg_num :: "jsnum \<Rightarrow> jsnum" where
  "neg_num NaN = NaN"
| "neg_num PosInf = NegInf"
| "neg_num NegInf = PosInf"
| "neg_num (Fin q) = Fin (- q)"

definition radix_literal :: "string \<Rightarrow> jsnum option" where
  "radix_literal s =
     (case s of
        a # b # r \<Rightarrow>
          if a = CHR ''0'' \<and> (b = CHR ''x'' \<or> b = CHR ''X'')
            then Some (if all_digits 16 r then round_double (of_nat (digits_val 16 r)) else NaN)
          else if a = CHR ''0'' \<and> (b = CHR ''o'' \<or> b = CHR ''O'')
            then Some (if all_digits 8 r then round_double (of_nat (digits_val 8 r)) else NaN)
          else if a = CHR ''0'' \<and> (b = CHR ''b'' \<or> b = CHR ''B'')
            then Some (if all_digits 2 r then round_double (of_nat (digits_val 2 r)) else NaN)
          else None
      | _ \<Rightarrow> None)"

definition StringToNumber :: "string \<Rightarrow> jsnum" where
  "StringToNumber s =
     (let t = trim s in
      case t of
        [] \<Rightarrow> Fin 0
      | c # r \<Rightarrow>
          (case radix_literal t of
             Some n \<Rightarrow> n
           | None \<Rightarrow>
               if c = CHR ''-'' then neg_num (unsigned_decimal r)
               else if c = CHR ''+'' then unsigned_decimal r
               else unsigned_decimal t))"

subsection \<open>\<^verbatim>\<open>String(v)\<close> and \<^verbatim>\<open>Number(v)\<close>\<close>

text \<open>
  How the runtime prints a finite number (shortest digits that read back as the same
  double) is not a property of its rational value, so the printer of finite numbers is a
  parameter \<open>fmt\<close> of everything that may print one. An array prints as its elements
  joined by commas, \<^verbatim>\<open>undefined\<close> and \<^verbatim>\<open>null\<close> elements as nothing.
\<close>

fun join :: "string \<Rightarrow> string list \<Rightarrow> string" where
  "join sep [] = []"
| "join sep [x] = x"
| "join sep (x # y # ys) = x @ sep @ join sep (y # ys)"

fun NumberToString :: "(rat \<Rightarrow> string) \<Rightarrow> jsnum \<Rightarrow> string" where
  "NumberToString fmt NaN = ''NaN''"
| "NumberToString fmt PosInf = ''Infinity''"
| "NumberToString fmt NegInf = ''-Infinity''"
| "NumberToString fmt (Fin q) = fmt q"

fun ToString :: "(rat \<Rightarrow> string) \<Rightarrow> jsval \<Rightarrow> string" where
  "ToString fmt Undefined = ''undefined''"
| "ToString fmt Null = ''null''"
| "ToString fmt (Bool b) = (if b then ''true'' else ''false'')"
| "ToString fmt (Num n) = NumberToString fmt n"
| "ToString fmt (Str s) = s"
| "ToString fmt (Arr xs) =
     join '','' (map (\<lambda>x. if x = Undefined \<or> x = Null then [] else ToString fmt x) xs)"
| "ToString fmt (Obj kvs) = ''[object Object]''"
| "ToString fmt (Fn f) = ''function '' @ f @ ''() { [native code] }''"

fun ToNumber :: "(rat \<Rightarrow> string) \<Rightarrow> jsval \<Rightarrow> jsnum" where
  "ToNumber fmt Undefined = NaN"
| "ToNumber fmt Null = Fin 0"
| "ToNumber fmt (Bool b) = (if b then Fin 1 else Fin 0)"
| "ToNumber fmt (Num n) = n"
| "ToNumber fmt (Str s) = StringToNumber s"
| "ToNumber fmt (Arr xs) = StringToNumber (ToString fmt (Arr xs))"
| "ToNumber fmt (Obj kvs) = NaN"
| "ToNumber fmt (Fn f) = NaN"

section \<open>The field normalizer\<close>

text \<open>
  What the program can raise. A validation error carries its issues, each the code the
  validation library gives it and the path of the offending value.
\<close>

datatype seg = Key string | Idx nat

datatype issue_code = invalid_type | too_small | too_big | invalid_value | invalid_union

type_synonym issue = "issue_code \<times> seg list"

datatype exn =
    TypeError
  | URIError
  | InvalidFieldsFormat
  | ZodError "issue list"
  | FakerError

text \<open>
  One step of the \<^verbatim>\<open>fields.map\<close> callback of \<^verbatim>\<open>normalizeFields\<close>. The result is the
  object literal of the source, its eight keys in the order written; an attribute the
  source sets to \<^verbatim>\<open>undefined\<close> is present with the value \<open>Undefined\<close>.
\<close>

definition normalizeField :: "(rat \<Rightarrow> string) \<Rightarrow> jsval \<Rightarrow> exn + jsval" where
  "normalizeField fmt f =
     (if f = Undefined \<or> f = Null then Inl TypeError
      else Inr (Obj
        [(''name'', get_prop f ''name''),
         (''type'', get_prop f ''type''),
         (''related'',
            if truthy (get_prop f ''related'') then Str (ToString fmt (get_prop f ''related''))
            else Undefined),
         (''values'',
            if truthy (get_prop f ''values'')
            then (if isArray (get_prop f ''values'') then get_prop f ''values''
                  else Arr [get_prop f ''values''])
            else Undefined),
         (''min'',
            if truthy (get_prop f ''min'') then Num (ToNumber fmt (get_prop f ''min'')) else Undefined),
         (''max'',
            if truthy (get_prop f ''max'') then Num (ToNumber fmt (get_prop f ''max'')) else Undefined),
         (''length'',
            if truthy (get_prop f ''length'') then Num (ToNumber fmt (get_prop f ''length''))
            else Undefined),
         (''format'',
            if truthy (get_prop f ''format'') then Str (ToString fmt (get_prop f ''format''))
            else Undefined)]))"

text \<open>\<^verbatim>\<open>xs.map(f)\<close> where \<open>f\<close> may raise: the first exception ends the map.\<close>

fun map_exn :: "('a \<Rightarrow> exn + 'b) \<Rightarrow> 'a list \<Rightarrow> exn + 'b list" where
  "map_exn f [] = Inr []"
| "map_exn f (x # xs) =
     (case f x of
        Inl e \<Rightarrow> Inl e
      | Inr y \<Rightarrow> (case map_exn f xs of Inl e \<Rightarrow> Inl e | Inr ys \<Rightarrow> Inr (y # ys)))"

text \<open>
  \<^verbatim>\<open>normalizeFields(fields)\<close>. The argument is typed \<^verbatim>\<open>unknown[]\<close> but the routes pass
  whatever \<^verbatim>\<open>JSON.parse\<close> returned: on anything but an array \<^verbatim>\<open>fields.map\<close> is not a
  function and the call raises a TypeError.
\<close>

definition normalizeFields :: "(rat \<Rightarrow> string) \<Rightarrow> jsval \<Rightarrow> exn + jsval" where
  "normalizeFields fmt fields =
     (case fields of
        Arr xs \<Rightarrow> (case map_exn (normalizeField fmt) xs of Inl e \<Rightarrow> Inl e | Inr ys \<Rightarrow> Inr (Arr ys))
      | _ \<Rightarrow> Inl TypeError)"

section \<open>The value source\<close>

text \<open>
  Validated field definitions (\<^verbatim>\<open>FieldDefinition\<close>) and parameters (\<^verbatim>\<open>QueryParams\<close>), as
  the validation schema types them: only values that passed \<^verbatim>\<open>queryParamsSchema.parse\<close>
  reach the generator, so numbers are finite. \<open>qfields\<close> is \<^verbatim>\<open>fields\<close>; \<open>ftype\<close>,
  \<open>fvalues\<close>, \<open>fmin\<close>, \<open>fmax\<close> and \<open>flength\<close> are the attributes \<^verbatim>\<open>type\<close>,
  \<^verbatim>\<open>values\<close>, \<^verbatim>\<open>min\<close>, \<^verbatim>\<open>max\<close> and \<^verbatim>\<open>length\<close>.
\<close>

record FieldDefinition =
  name :: string
  ftype :: string
  related :: "string option"
  fvalues :: "jsval list option"
  fmin :: "rat option"
  fmax :: "rat option"
  flength :: "rat option"
  format :: "string option"

record QueryParams =
  qfields :: "FieldDefinition list"
  count :: "rat option"
  seed :: "rat option"

text \<open>
  What the generator shares with the rest of the process: the state \<open>rng\<close> of the
  library's seeded randomizer, the host's own random source behind \<^verbatim>\<open>Math.random\<close>
  (the draws it will deliver and how many were taken), the wall clock, and the lines
  written with \<^verbatim>\<open>console.error\<close>. A draw of \<^verbatim>\<open>Math.random\<close> is a double \<open>r\<close> with
  \<open>0 \<le> r < 1\<close>, so at most \<^verbatim>\<open>1 - 2^-53\<close>; the lemma that needs the bounds assumes them.
\<close>

record 'r world =
  rng :: 'r
  host_draws :: "nat \<Rightarrow> rat"
  host_pos :: nat
  clock :: int
  console :: "string list"

definition Math_random :: "'r world \<Rightarrow> rat \<times> 'r world" where
  "Math_random w = (host_draws w (host_pos w), w\<lparr>host_pos := Suc (host_pos w)\<rparr>)"

text \<open>The library calls the \<^verbatim>\<open>switch\<close> of \<^verbatim>\<open>generateFieldValue\<close> makes, with their arguments.\<close>

datatype call =
    string_alphanumeric rat
  | number_int rat rat
  | datatype_boolean
  | date_recent_toISOString
  | internet_email
  | phone_number
  | string_uuid
  | internet_url
  | image_url
  | location_streetAddress
  | location_city
  | location_country
  | location_zipCode
  | person_firstName
  | person_lastName
  | person_fullName
  | internet_username
  | internet_password rat
  | color_rgb_upper_hex
  | finance_creditCardNumber
  | company_name
  | person_jobTitle
  | internet_ipv4
  | internet_ipv6
  | location_latitude
  | location_longitude
  | lorem_sentence
  | lorem_paragraph
  | lorem_word

text \<open>
  The fake-data library is not part of the repository; it is a parameter.
  \<open>faker_seed\<close> is \<^verbatim>\<open>faker.seed(n)\<close>, which replaces the randomizer state by one computed
  from \<open>n\<close>. \<open>faker_call\<close> runs one of the calls above: it reads the clock (the
  reference date of \<^verbatim>\<open>date.recent\<close>) and the randomizer state, and returns a value or
  raises, with the new state. \<open>faker_root\<close> is the object \<^verbatim>\<open>faker\<close> as the dotted-path
  walk sees it: nested \<open>Obj\<close>s that list every key \<open>k\<close> with \<^verbatim>\<open>k in value\<close> (inherited
  ones too), a function as \<open>Fn\<close> with an identifier. \<open>faker_invoke\<close> calls such a
  function with no argument.
\<close>

record 'r faker =
  faker_seed :: "rat \<Rightarrow> 'r"
  faker_call :: "call \<Rightarrow> int \<Rightarrow> 'r \<Rightarrow> (exn + jsval) \<times> 'r"
  faker_root :: jsval
  faker_invoke :: "string \<Rightarrow> 'r world \<Rightarrow> (exn + jsval) \<times> 'r world"

section \<open>The value generator\<close>

text \<open>\<^verbatim>\<open>x || d\<close> on an optional number: \<open>d\<close> when \<open>x\<close> is absent or zero.\<close>

definition or_default :: "rat option \<Rightarrow> rat \<Rightarrow> rat" where
  "or_default x d = (case x of Some q \<Rightarrow> if truthy (Num (Fin q)) then q else d | None \<Rightarrow> d)"

text \<open>\<^verbatim>\<open>xs[i]\<close> for a number \<open>i\<close> that is an integer: \<^verbatim>\<open>undefined\<close> out of range.\<close>

definition index :: "jsval list \<Rightarrow> int \<Rightarrow> jsval" where
  "index xs i = (if 0 \<le> i \<and> i < int (length xs) then xs ! nat i else Undefined)"

text \<open>
  \<^verbatim>\<open>values[Math.floor(r * values.length)]\<close> for a draw \<open>r\<close>: the product is a
  floating-point product, rounded before \<^verbatim>\<open>Math.floor\<close> sees it. An index that is not a
  finite number reads \<^verbatim>\<open>undefined\<close>.
\<close>

definition enum_pick :: "jsval list \<Rightarrow> rat \<Rightarrow> jsval" where
  "enum_pick vs r =
     (case round_double (r * of_nat (length vs)) of
        Fin x \<Rightarrow> index vs \<lfloor>x\<rfloor>
      | _ \<Rightarrow> Undefined)"

text \<open>\<^verbatim>\<open>s.split('.')\<close>.\<close>

fun split_on :: "char \<Rightarrow> string \<Rightarrow> string list" where
  "split_on c [] = [[]]"
| "split_on c (x # xs) =
     (if x = c then [] # split_on c xs
      else (case split_on c xs of h # t \<Rightarrow> (x # h) # t | [] \<Rightarrow> [[x]]))"

text \<open>
  The \<^verbatim>\<open>for (const key of keys)\<close> loop: it descends while the value is an object that
  has the key and stops (\<^verbatim>\<open>break\<close>) at the first key that is missing, keeping the value
  reached so far.
\<close>

fun resolve :: "jsval \<Rightarrow> string list \<Rightarrow> jsval" where
  "resolve v [] = v"
| "resolve v (k # ks) =
     (case v of
        Obj kvs \<Rightarrow> (case map_of kvs k of Some v' \<Rightarrow> resolve v' ks | None \<Rightarrow> v)
      | _ \<Rightarrow> v)"

text \<open>The \<^verbatim>\<open>switch (type)\<close>: every branch is one library call.\<close>

definition builtin_call :: "FieldDefinition \<Rightarrow> call" where
  "builtin_call f =
     (let t = ftype f in
      if t = ''string'' then string_alphanumeric (or_default (flength f) 10)
      else if t = ''number'' then number_int (or_default (fmin f) 0) (or_default (fmax f) 1000)
      else if t = ''boolean'' then datatype_boolean
      else if t = ''date'' then date_recent_toISOString
      else if t = ''email'' then internet_email
      else if t = ''phone'' then phone_number
      else if t = ''uuid'' then string_uuid
      else if t = ''url'' then internet_url
      else if t = ''image'' then image_url
      else if t = ''address'' then location_streetAddress
      else if t = ''city'' then location_city
      else if t = ''country'' then location_country
      else if t = ''zipcode'' then location_zipCode
      else if t = ''firstname'' then person_firstName
      else if t = ''lastname'' then person_lastName
      else if t = ''fullname'' then person_fullName
      else if t = ''username'' then internet_username
      else if t = ''password'' then internet_password 12
      else if t = ''hexcolor'' then color_rgb_upper_hex
      else if t = ''credit_card'' then finance_creditCardNumber
      else if t = ''company'' then company_name
      else if t = ''job_title'' then person_jobTitle
      else if t = ''ipv4'' then internet_ipv4
      else if t = ''ipv6'' then internet_ipv6
      else if t = ''latitude'' then location_latitude
      else if t = ''longitude'' then location_longitude
      else if t = ''sentence'' then lorem_sentence
      else if t = ''paragraph'' then lorem_paragraph
      else if t = ''word'' then lorem_word
      else string_alphanumeric 10)"

definition type_handler :: "'r faker \<Rightarrow> FieldDefinition \<Rightarrow> 'r world \<Rightarrow> (exn + jsval) \<times> 'r world" where
  "type_handler F f w =
     (case faker_call F (builtin_call f) (clock w) (rng w) of
        (res, r') \<Rightarrow> (res, w\<lparr>rng := r'\<rparr>))"

text \<open>The guard \<^verbatim>\<open>type === 'enum' && values && values.length > 0\<close>, with the values.\<close>

definition enum_values :: "FieldDefinition \<Rightarrow> jsval list option" where
  "enum_values f =
     (if ftype f = ''enum''
      then (case fvalues f of Some vs \<Rightarrow> if length vs > 0 then Some vs else None | None \<Rightarrow> None)
      else None)"

text \<open>
  \<^verbatim>\<open>generateFieldValue(field)\<close>. The enum branch draws from \<^verbatim>\<open>Math.random\<close>. The
  \<^verbatim>\<open>try\<close> block covers the walk and the call of the function it reaches; its
  \<^verbatim>\<open>catch\<close> writes to the console and lets control reach the \<^verbatim>\<open>switch\<close>. A value
  that is not a function is returned as it is.
\<close>

definition generateFieldValue ::
  "'r faker \<Rightarrow> FieldDefinition \<Rightarrow> 'r world \<Rightarrow> (exn + jsval) \<times> 'r world" where
  "generateFieldValue F f w =
     (case enum_values f of
        Some vs \<Rightarrow>
          (case Math_random w of
             (r, w1) \<Rightarrow> (Inr (enum_pick vs r), w1))
      | None \<Rightarrow>
        (case related f of
           None \<Rightarrow> type_handler F f w
         | Some rel \<Rightarrow>
             if rel = [] then type_handler F f w
             else
               (case resolve (faker_root F) (split_on CHR ''.'' rel) of
                  Fn g \<Rightarrow>
                    (case faker_invoke F g w of
                       (Inr v, w1) \<Rightarrow> (Inr v, w1)
                     | (Inl err, w1) \<Rightarrow>
                         type_handler F f
                           (w1\<lparr>console := console w1 @ [''Error accessing faker.'' @ rel @ '':'']\<rparr>))
                | v \<Rightarrow> (Inr v, w))))"

section \<open>The record generator\<close>

text \<open>
  A row is a plain object, written here as the list of its own properties in the order
  the runtime enumerates them: keys that are array indices first, ascending, then the
  other keys in the order they were created.
\<close>

type_synonym row = "(string \<times> jsval) list"

definition is_array_index :: "string \<Rightarrow> bool" where
  "is_array_index k =
     (all_digits 10 k \<and> (k = ''0'' \<or> hd k \<noteq> CHR ''0'') \<and> int (digits_val 10 k) < 2 ^ 32 - 1)"

fun insert_index :: "string \<Rightarrow> jsval \<Rightarrow> row \<Rightarrow> row" where
  "insert_index k v [] = [(k, v)]"
| "insert_index k v ((k', v') # r) =
     (if is_array_index k' \<and> digits_val 10 k' < digits_val 10 k
      then (k', v') # insert_index k v r
      else (k, v) # (k', v') # r)"

text \<open>
  \<^verbatim>\<open>row[k] = v\<close> on an object created by \<^verbatim>\<open>{}\<close>. An existing property keeps its place
  and takes the new value. \<^verbatim>\<open>__proto__\<close> is the inherited accessor: assigning to it
  makes no own property.
\<close>

definition set_property :: "row \<Rightarrow> string \<Rightarrow> jsval \<Rightarrow> row" where
  "set_property r k v =
     (if k = ''__proto__'' then r
      else if k \<in> fst ` set r then map (\<lambda>(k', v'). if k' = k then (k', v) else (k', v')) r
      else if is_array_index k then insert_index k v r
      else r @ [(k, v)])"

text \<open>The inner loop \<^verbatim>\<open>for (const field of fields)\<close>; an exception leaves it.\<close>

fun build_row :: "'r faker \<Rightarrow> FieldDefinition list \<Rightarrow> row \<Rightarrow> 'r world \<Rightarrow> (exn + row) \<times> 'r world" where
  "build_row F [] r w = (Inr r, w)"
| "build_row F (f # fs) r w =
     (case generateFieldValue F f w of
        (Inl e, w1) \<Rightarrow> (Inl e, w1)
      | (Inr v, w1) \<Rightarrow> build_row F fs (set_property r (name f) v) w1)"

text \<open>The outer loop \<^verbatim>\<open>for (let i = 0; i < count; i++)\<close>, \<open>results\<close> being the accumulator.\<close>

function rows_loop ::
  "'r faker \<Rightarrow> FieldDefinition list \<Rightarrow> rat \<Rightarrow> nat \<Rightarrow> row list \<Rightarrow> 'r world \<Rightarrow> (exn + row list) \<times> 'r world" where
  "rows_loop F fs n i results w =
     (if of_nat i < n
      then (case build_row F fs [] w of
              (Inl e, w1) \<Rightarrow> (Inl e, w1)
            | (Inr r, w1) \<Rightarrow> rows_loop F fs n (Suc i) (results @ [r]) w1)
      else (Inr results, w))"
  by pat_completeness auto
termination
proof (relation "measure (\<lambda>(F, fs, n, i, results, w). nat \<lceil>n\<rceil> - i)")
  show "wf (measure (\<lambda>(F, fs, n, i, results, w). nat \<lceil>n\<rceil> - i))"
    by simp
next
  fix F :: "'r faker" and fs :: "FieldDefinition list" and n :: rat and i :: nat
    and results :: "row list" and w w1 :: "'r world" and r :: row
  assume "of_nat i < n"
  then have "int i < \<lceil>n\<rceil>"
    by (simp add: less_ceiling_iff)
  then show "((F, fs, n, Suc i, results @ [r], w1), (F, fs, n, i, results, w))
        \<in> measure (\<lambda>(F, fs, n, i, results, w). nat \<lceil>n\<rceil> - i)"
    by simp
qed

declare rows_loop.simps [simp del]

text \<open>\<^verbatim>\<open>generateMockData(params)\<close>.\<close>

definition generateMockData :: "'r faker \<Rightarrow> QueryParams \<Rightarrow> 'r world \<Rightarrow> (exn + row list) \<times> 'r world" where
  "generateMockData F params w =
     (let n = (case count params of Some c \<Rightarrow> c | None \<Rightarrow> 10);
          w0 = (case seed params of Some s \<Rightarrow> w\<lparr>rng := faker_seed F s\<rparr> | None \<Rightarrow> w)
      in rows_loop F (qfields params) n 0 [] w0)"

section \<open>Validation\<close>

text \<open>
  \<^verbatim>\<open>fieldDefinitionSchema\<close> and \<^verbatim>\<open>queryParamsSchema\<close>. The library checks every key and
  collects the issues; \<^verbatim>\<open>parse\<close> raises when there is one and otherwise returns the
  typed value, unknown keys dropped. Its number type accepts finite numbers only.
\<close>

fun opt_number_issues :: "seg list \<Rightarrow> jsval \<Rightarrow> issue list" where
  "opt_number_issues p Undefined = []"
| "opt_number_issues p (Num (Fin q)) = []"
| "opt_number_issues p v = [(invalid_type, p)]"

fun opt_string_issues :: "seg list \<Rightarrow> jsval \<Rightarrow> issue list" where
  "opt_string_issues p Undefined = []"
| "opt_string_issues p (Str s) = []"
| "opt_string_issues p v = [(invalid_type, p)]"

fun name_issues :: "seg list \<Rightarrow> jsval \<Rightarrow> issue list" where
  "name_issues p (Str s) = (if length s < 1 then [(too_small, p)] else [])"
| "name_issues p v = [(invalid_type, p)]"

definition SUPPORTED_TYPES :: "string list" where
  "SUPPORTED_TYPES =
     [''string'', ''number'', ''boolean'', ''date'', ''enum'', ''email'', ''phone'', ''uuid'',
      ''url'', ''image'', ''address'', ''city'', ''country'', ''zipcode'', ''firstname'',
      ''lastname'', ''fullname'', ''username'', ''password'', ''hexcolor'', ''credit_card'',
      ''company'', ''job_title'', ''ipv4'', ''ipv6'', ''latitude'', ''longitude'', ''sentence'',
      ''paragraph'', ''word'']"

fun type_issues :: "seg list \<Rightarrow> jsval \<Rightarrow> issue list" where
  "type_issues p (Str s) = (if s \<in> set SUPPORTED_TYPES then [] else [(invalid_value, p)])"
| "type_issues p v = [(invalid_value, p)]"

fun literal_issues :: "seg list \<Rightarrow> jsval \<Rightarrow> issue list" where
  "literal_issues p (Str s) = []"
| "literal_issues p (Num (Fin q)) = []"
| "literal_issues p (Bool b) = []"
| "literal_issues p v = [(invalid_union, p)]"

fun values_issues :: "seg list \<Rightarrow> jsval \<Rightarrow> issue list" where
  "values_issues p Undefined = []"
| "values_issues p (Arr xs) =
     concat (map (\<lambda>(i, x). literal_issues (p @ [Idx i]) x) (zip [0..<length xs] xs))"
| "values_issues p v = [(invalid_type, p)]"

fun field_issues :: "seg list \<Rightarrow> jsval \<Rightarrow> issue list" where
  "field_issues p (Obj kvs) =
     name_issues (p @ [Key ''name'']) (get_prop (Obj kvs) ''name'')
     @ type_issues (p @ [Key ''type'']) (get_prop (Obj kvs) ''type'')
     @ opt_string_issues (p @ [Key ''related'']) (get_prop (Obj kvs) ''related'')
     @ values_issues (p @ [Key ''values'']) (get_prop (Obj kvs) ''values'')
     @ opt_number_issues (p @ [Key ''min'']) (get_prop (Obj kvs) ''min'')
     @ opt_number_issues (p @ [Key ''max'']) (get_prop (Obj kvs) ''max'')
     @ opt_number_issues (p @ [Key ''length'']) (get_prop (Obj kvs) ''length'')
     @ opt_string_issues (p @ [Key ''format'']) (get_prop (Obj kvs) ''format'')"
| "field_issues p v = [(invalid_type, p)]"

fun fields_issues :: "jsval \<Rightarrow> issue list" where
  "fields_issues (Arr xs) =
     concat (map (\<lambda>(i, x). field_issues [Key ''fields'', Idx i] x) (zip [0..<length xs] xs))"
| "fields_issues v = [(invalid_type, [Key ''fields''])]"

text \<open>\<^verbatim>\<open>count: z.number().min(1).max(10000).optional().default(10)\<close>.\<close>

fun count_issues :: "jsval \<Rightarrow> issue list" where
  "count_issues Undefined = []"
| "count_issues (Num (Fin q)) =
     (if q < 1 then [(too_small, [Key ''count''])] else [])
     @ (if q > 10000 then [(too_big, [Key ''count''])] else [])"
| "count_issues v = [(invalid_type, [Key ''count''])]"

text \<open>The typed value of an input that has no issue.\<close>

fun opt_number_of :: "jsval \<Rightarrow> rat option" where
  "opt_number_of (Num (Fin q)) = Some q"
| "opt_number_of v = None"

fun opt_string_of :: "jsval \<Rightarrow> string option" where
  "opt_string_of (Str s) = Some s"
| "opt_string_of v = None"

fun string_of :: "jsval \<Rightarrow> string" where
  "string_of (Str s) = s"
| "string_of v = []"

fun opt_array_of :: "jsval \<Rightarrow> jsval list option" where
  "opt_array_of (Arr xs) = Some xs"
| "opt_array_of v = None"

definition field_of :: "jsval \<Rightarrow> FieldDefinition" where
  "field_of f =
     \<lparr>name = string_of (get_prop f ''name''),
      ftype = string_of (get_prop f ''type''),
      related = opt_string_of (get_prop f ''related''),
      fvalues = opt_array_of (get_prop f ''values''),
      fmin = opt_number_of (get_prop f ''min''),
      fmax = opt_number_of (get_prop f ''max''),
      flength = opt_number_of (get_prop f ''length''),
      format = opt_string_of (get_prop f ''format'')\<rparr>"

fun array_elems :: "jsval \<Rightarrow> jsval list" where
  "array_elems (Arr xs) = xs"
| "array_elems v = []"

text \<open>\<^verbatim>\<open>queryParamsSchema.parse({ fields, count, seed })\<close>.\<close>

definition queryParamsSchema_parse :: "jsval \<Rightarrow> jsval \<Rightarrow> jsval \<Rightarrow> exn + QueryParams" where
  "queryParamsSchema_parse fs c s =
     (let issues = fields_issues fs @ count_issues c @ opt_number_issues [Key ''seed''] s in
      if issues = []
      then Inr \<lparr>qfields = map field_of (array_elems fs),
                count = Some (case opt_number_of c of Some q \<Rightarrow> q | None \<Rightarrow> 10),
                seed = opt_number_of s\<rparr>
      else Inl (ZodError issues))"

section \<open>The routes\<close>

text \<open>
  \<^verbatim>\<open>parseInt(s, 10)\<close>: leading white space, an optional sign, then the longest run of
  decimal digits; \<open>NaN\<close> when there is none. The number is the double nearest to the
  value of the digits.
\<close>

definition parseInt :: "string \<Rightarrow> jsnum" where
  "parseInt s =
     (let t = dropWhile is_ws s;
          neg = (t \<noteq> [] \<and> hd t = CHR ''-'');
          r = (if t \<noteq> [] \<and> (hd t = CHR ''-'' \<or> hd t = CHR ''+'') then tl t else t);
          ds = takeWhile (is_digit 10) r
      in if ds = [] then NaN
         else if neg then neg_num (round_double (of_nat (digits_val 10 ds)))
         else round_double (of_nat (digits_val 10 ds)))"

text \<open>
  What the routes take from the runtime and from libraries: the printer of finite
  numbers, \<^verbatim>\<open>encodeURIComponent\<close> (it raises a URIError on a lone surrogate),
  \<^verbatim>\<open>qs.parse\<close>, which returns an object, \<^verbatim>\<open>JSON.parse\<close>, \<open>None\<close> when it raises a
  SyntaxError, and the round trip \<^verbatim>\<open>SuperJSON.parse(SuperJSON.stringify(data))\<close> of
  \<^verbatim>\<open>serializeResponse\<close> on the rows of an answer, which raises on a value it cannot
  encode.
\<close>

record host =
  number_to_string :: "rat \<Rightarrow> string"
  encodeURIComponent :: "string \<Rightarrow> exn + string"
  qs_parse :: "string \<Rightarrow> jsval"
  JSON_parse :: "string \<Rightarrow> jsval option"
  SuperJSON_roundtrip :: "row list \<Rightarrow> exn + row list"

text \<open>
  The answers of a route: the success response with its count and rows, the failure
  response of the handler's \<^verbatim>\<open>catch\<close> with its message and details, and the answer the
  framework gives in place of the handler when a request body fails the schema the route
  declares for it (status 422, with the issues).
\<close>

datatype response =
    Success nat "row list"
  | Failure string exn
  | Unprocessable "issue list"

text \<open>
  \<^verbatim>\<open>Object.entries(query).map(([key, value]) => `${key}=${encodeURIComponent(String(value))}`).join('&')\<close>
\<close>

definition rawQueryString :: "host \<Rightarrow> (string \<times> jsval) list \<Rightarrow> exn + string" where
  "rawQueryString H query =
     (case map_exn (\<lambda>(k, v).
              case encodeURIComponent H (ToString (number_to_string H) v) of
                Inl e \<Rightarrow> Inl e
              | Inr s \<Rightarrow> Inr (k @ ''='' @ s)) query of
        Inl e \<Rightarrow> Inl e
      | Inr parts \<Rightarrow> Inr (join ''&'' parts))"

text \<open>
  The part both routes share: from the query, the \<^verbatim>\<open>fields\<close> value after the final
  \<^verbatim>\<open>normalizeFields\<close>. Array notation first: when the parsed query has an array under
  \<^verbatim>\<open>fields\<close> it is normalized; otherwise a string under \<^verbatim>\<open>fields\<close> is parsed as JSON and
  anything else is taken as it is. Then \<^verbatim>\<open>normalizeFields\<close> runs on the result, in both
  cases.
\<close>

definition query_fields :: "host \<Rightarrow> (string \<times> jsval) list \<Rightarrow> jsval \<Rightarrow> exn + jsval" where
  "query_fields H query parsedWithQS =
     (case (if truthy (get_prop parsedWithQS ''fields'') \<and> isArray (get_prop parsedWithQS ''fields'')
            then normalizeFields (number_to_string H) (get_prop parsedWithQS ''fields'')
            else (case get_prop (Obj query) ''fields'' of
                    Str fieldsQuery \<Rightarrow>
                      (case JSON_parse H fieldsQuery of
                         None \<Rightarrow> Inl InvalidFieldsFormat
                       | Some v \<Rightarrow> Inr v)
                  | fieldsQuery \<Rightarrow> Inr fieldsQuery)) of
        Inl e \<Rightarrow> Inl e
      | Inr fs \<Rightarrow> normalizeFields (number_to_string H) fs)"

text \<open>The \<^verbatim>\<open>count\<close> and \<^verbatim>\<open>seed\<close> arguments the GET route hands to the validation.\<close>

definition get_count :: "host \<Rightarrow> (string \<times> jsval) list \<Rightarrow> jsval \<Rightarrow> jsval" where
  "get_count H query parsedWithQS =
     (if truthy (get_prop parsedWithQS ''count'')
      then Num (parseInt (ToString (number_to_string H) (get_prop parsedWithQS ''count'')))
      else if truthy (get_prop (Obj query) ''count'')
      then Num (parseInt (ToString (number_to_string H) (get_prop (Obj query) ''count'')))
      else Num (Fin 10))"

definition get_seed :: "host \<Rightarrow> (string \<times> jsval) list \<Rightarrow> jsval \<Rightarrow> jsval" where
  "get_seed H query parsedWithQS =
     (if truthy (get_prop parsedWithQS ''seed'')
      then Num (parseInt (ToString (number_to_string H) (get_prop parsedWithQS ''seed'')))
      else if truthy (get_prop (Obj query) ''seed'')
      then Num (parseInt (ToString (number_to_string H) (get_prop (Obj query) ''seed'')))
      else Undefined)"

text \<open>The steps of the GET route up to and including the validation: no row is made here.\<close>

definition get_validated :: "host \<Rightarrow> (string \<times> jsval) list \<Rightarrow> exn + QueryParams" where
  "get_validated H query =
     (case rawQueryString H query of
        Inl e \<Rightarrow> Inl e
      | Inr raw \<Rightarrow>
          (let parsedWithQS = qs_parse H raw in
           case query_fields H query parsedWithQS of
             Inl e \<Rightarrow> Inl e
           | Inr fs \<Rightarrow>
               if \<not> isArray fs then Inl InvalidFieldsFormat
               else queryParamsSchema_parse fs
                      (get_count H query parsedWithQS) (get_seed H query parsedWithQS)))"

text \<open>
  The end of both handlers: generate, serialize, and answer. The count of the success
  response is \<^verbatim>\<open>data.length\<close>, taken before \<^verbatim>\<open>serializeResponse\<close> runs. The
  \<^verbatim>\<open>catch\<close> turns whatever the \<^verbatim>\<open>try\<close> block raised, the serializer included, into
  the failure response, the exception being its \<^verbatim>\<open>details\<close>; the failure response is
  text, which the serializer returns as it is.
\<close>

definition respond ::
  "host \<Rightarrow> 'r faker \<Rightarrow> exn + QueryParams \<Rightarrow> 'r world \<Rightarrow> response \<times> 'r world" where
  "respond H F validated w =
     (case validated of
        Inl e \<Rightarrow> (Failure ''Failed to generate mock data'' e, w)
      | Inr validatedParams \<Rightarrow>
          (case generateMockData F validatedParams w of
             (Inl e, w1) \<Rightarrow> (Failure ''Failed to generate mock data'' e, w1)
           | (Inr data, w1) \<Rightarrow>
               (case SuperJSON_roundtrip H data of
                  Inl e \<Rightarrow> (Failure ''Failed to generate mock data'' e, w1)
                | Inr encoded \<Rightarrow> (Success (length data) encoded, w1))))"


text \<open>
  \<^verbatim>\<open>POST /api/generate\<close> is declared with \<^verbatim>\<open>body: queryParamsSchema\<close>: the framework
  parses the request body with that schema before the handler runs. A body with an issue
  is answered by the framework, and the handler is not called; otherwise the handler
  receives the parsed body, which is an object with the field objects reduced to the keys
  of the schema, the count (10 when the body has none) and the seed if there is one. A
  request without a body has the body \<^verbatim>\<open>undefined\<close>, which is not an object.
\<close>

definition field_keys :: "string list" where
  "field_keys = [''name'', ''type'', ''related'', ''values'', ''min'', ''max'', ''length'', ''format'']"

definition known_keys :: "string list \<Rightarrow> jsval \<Rightarrow> jsval" where
  "known_keys ks v =
     (case v of
        Obj kvs \<Rightarrow> Obj (concat (map (\<lambda>k. case map_of kvs k of Some x \<Rightarrow> [(k, x)] | None \<Rightarrow> []) ks))
      | _ \<Rightarrow> v)"

definition body_schema :: "jsval \<Rightarrow> issue list + jsval" where
  "body_schema body =
     (case body of
        Obj kvs \<Rightarrow>
          (let issues = fields_issues (get_prop body ''fields'') @ count_issues (get_prop body ''count'')
                        @ opt_number_issues [Key ''seed''] (get_prop body ''seed'')
           in if issues = []
              then Inr (Obj ([(''fields'', Arr (map (known_keys field_keys) (array_elems (get_prop body ''fields'')))),
                              (''count'', (case get_prop body ''count'' of Undefined \<Rightarrow> Num (Fin 10) | c \<Rightarrow> c))]
                             @ (case map_of kvs ''seed'' of Some x \<Rightarrow> [(''seed'', x)] | None \<Rightarrow> [])))
              else Inl issues)
      | _ \<Rightarrow> Inl [(invalid_type, [])])"

text \<open>
  The handler of the POST route, on the body it receives: the fields come from the body
  when it has an array or a string under \<^verbatim>\<open>fields\<close>, and from the query otherwise;
  \<^verbatim>\<open>count\<close> and \<^verbatim>\<open>seed\<close> come from the body when it defines them.
\<close>

definition body_prop :: "jsval \<Rightarrow> string \<Rightarrow> jsval" where
  "body_prop body k = (if body = Undefined \<or> body = Null then Undefined else get_prop body k)"

definition post_fields :: "host \<Rightarrow> (string \<times> jsval) list \<Rightarrow> jsval \<Rightarrow> exn + jsval" where
  "post_fields H query body =
     (if truthy (body_prop body ''fields'') \<and> isArray (body_prop body ''fields'')
      then normalizeFields (number_to_string H) (body_prop body ''fields'')
      else
        (case (if truthy body then body_prop body ''fields'' else Undefined) of
           Str s \<Rightarrow> (case JSON_parse H s of None \<Rightarrow> Inl InvalidFieldsFormat | Some v \<Rightarrow> Inr v)
         | _ \<Rightarrow>
             (case rawQueryString H query of
                Inl e \<Rightarrow> Inl e
              | Inr raw \<Rightarrow> query_fields H query (qs_parse H raw))))"

definition post_count :: "host \<Rightarrow> (string \<times> jsval) list \<Rightarrow> jsval \<Rightarrow> jsval" where
  "post_count H query body =
     (if truthy body \<and> body_prop body ''count'' \<noteq> Undefined
      then Num (ToNumber (number_to_string H) (body_prop body ''count''))
      else if truthy (get_prop (Obj query) ''count'')
      then Num (parseInt (ToString (number_to_string H) (get_prop (Obj query) ''count'')))
      else Num (Fin 10))"

definition post_seed :: "host \<Rightarrow> (string \<times> jsval) list \<Rightarrow> jsval \<Rightarrow> jsval" where
  "post_seed H query body =
     (if truthy body \<and> body_prop body ''seed'' \<noteq> Undefined
      then Num (ToNumber (number_to_string H) (body_prop body ''seed''))
      else if truthy (get_prop (Obj query) ''seed'')
      then Num (parseInt (ToString (number_to_string H) (get_prop (Obj query) ''seed'')))
      else Undefined)"

definition post_params :: "host \<Rightarrow> (string \<times> jsval) list \<Rightarrow> jsval \<Rightarrow> exn + QueryParams" where
  "post_params H query body =
     (case post_fields H query body of
        Inl e \<Rightarrow> Inl e
      | Inr fs \<Rightarrow>
          if \<not> isArray fs then Inl InvalidFieldsFormat
          else queryParamsSchema_parse fs (post_count H query body) (post_seed H query body))"

text \<open>
  The steps of the POST route up to and including the handler's validation, from the
  request body as it was sent: the issues of the body schema, or what the handler makes
  of the parsed body.
\<close>

definition post_validated ::
  "host \<Rightarrow> (string \<times> jsval) list \<Rightarrow> jsval \<Rightarrow> issue list + (exn + QueryParams)" where
  "post_validated H query body =
     (case body_schema body of
        Inl issues \<Rightarrow> Inl issues
      | Inr parsed \<Rightarrow> Inr (post_params H query parsed))"

definition post_generate ::
  "host \<Rightarrow> 'r faker \<Rightarrow> (string \<times> jsval) list \<Rightarrow> jsval \<Rightarrow> 'r world \<Rightarrow> response \<times> 'r world" where
  "post_generate H F query body w =
     (case post_validated H query body of
        Inl issues \<Rightarrow> (Unprocessable issues, w)
      | Inr validated \<Rightarrow> respond H F validated w)"

section \<open>A value source to run the model on\<close>

text \<open>
  The theorems below hold for every value source. To evaluate the generator on concrete
  requests a small one is fixed here: a linear congruential randomizer; \<^verbatim>\<open>number.int\<close>
  as the library documents it (an integer between the bounds, an error when there is
  none); a number for every other call (the next state, or for a date the clock shifted
  by the state); and a tree with one callable path, one constant and the class
  constructor, which cannot be called without \<^verbatim>\<open>new\<close>.
\<close>

definition lcg :: "nat \<Rightarrow> nat" where
  "lcg r = (r * 75 + 74) mod 65537"

definition stub_call :: "call \<Rightarrow> int \<Rightarrow> nat \<Rightarrow> (exn + jsval) \<times> nat" where
  "stub_call c t r =
     (case c of
        number_int lo hi \<Rightarrow>
          if \<lceil>lo\<rceil> \<le> \<lfloor>hi\<rfloor>
          then (Inr (Num (Fin (of_int (\<lceil>lo\<rceil> + int r mod (\<lfloor>hi\<rfloor> - \<lceil>lo\<rceil> + 1))))), lcg r)
          else (Inl FakerError, r)
      | datatype_boolean \<Rightarrow> (Inr (Bool (even r)), lcg r)
      | date_recent_toISOString \<Rightarrow> (Inr (Num (Fin (of_int (t - int r)))), lcg r)
      | _ \<Rightarrow> (Inr (Num (Fin (of_nat r))), lcg r))"

definition stub_faker :: "nat faker" where
  "stub_faker =
     \<lparr>faker_seed = (\<lambda>s. nat \<lfloor>\<bar>s\<bar>\<rfloor>),
      faker_call = stub_call,
      faker_root =
        Obj [(''animal'', Obj [(''dog'', Fn ''animal.dog'')]),
             (''definitions'', Obj [(''title'', Str ''English'')]),
             (''constructor'', Fn ''Faker'')],
      faker_invoke =
        (\<lambda>g w. if g = ''animal.dog'' then (Inr (Str ''Beagle''), w\<lparr>rng := lcg (rng w)\<rparr>)
               else (Inl TypeError, w))\<rparr>"

definition stub_world :: "nat world" where
  "stub_world = \<lparr>rng = 7, host_draws = (\<lambda>i. 1 / 2), host_pos = 0, clock = 1000000, console = []\<rparr>"

text \<open>A field definition with a name and a type and nothing else.\<close>

definition plain_field :: "string \<Rightarrow> string \<Rightarrow> FieldDefinition" where
  "plain_field n t =
     \<lparr>name = n, ftype = t, related = None, fvalues = None, fmin = None, fmax = None,
      flength = None, format = None\<rparr>"

section \<open>A host to run the routes on\<close>

text \<open>
  \<^verbatim>\<open>encodeURIComponent\<close> on a string of UTF-8 bytes: every byte but the unreserved
  characters becomes \<^verbatim>\<open>%XX\<close>.
\<close>

definition unreserved :: "char \<Rightarrow> bool" where
  "unreserved c =
     (let n = of_char c :: nat in
      (65 \<le> n \<and> n \<le> 90) \<or> (97 \<le> n \<and> n \<le> 122) \<or> (48 \<le> n \<and> n \<le> 57)
      \<or> c \<in> set ''-_.!~*'()'')"

definition percent_encode :: "string \<Rightarrow> string" where
  "percent_encode s =
     concat (map (\<lambda>c. if unreserved c then [c]
                        else [CHR ''%'', ''0123456789ABCDEF'' ! (of_char c div 16),
                              ''0123456789ABCDEF'' ! (of_char c mod 16)]) s)"

text \<open>The decimal digits of a natural number.\<close>

function show_nat :: "nat \<Rightarrow> string" where
  "show_nat n = (if n < 10 then [''0123456789'' ! n] else show_nat (n div 10) @ [''0123456789'' ! (n mod 10)])"
  by pat_completeness auto
termination
  by (relation "measure id") auto

declare show_nat.simps [simp del]

text \<open>
  Two schemas as JSON text and as array notation, and the raw query strings the routes
  rebuild for the JSON texts.
\<close>

definition json_age :: string where
  \<open>json_age = ''[{"name":"age","type":"number","min":18,"max":65}]''\<close>

definition json_level :: string where
  \<open>json_level = ''[{"name":"level","type":"enum","values":[1,2]}]''\<close>

definition qs_age :: string where
  "qs_age = ''fields[0][name]=age&fields[0][type]=number&fields[0][min]=18&fields[0][max]=65''"

definition qs_level :: string where
  "qs_level = ''fields[0][name]=level&fields[0][type]=enum&fields[0][values][0]=1&fields[0][values][1]=2''"

definition raw_json_age :: string where
  "raw_json_age = ''fields='' @ percent_encode json_age"

definition raw_json_level :: string where
  "raw_json_level = ''fields='' @ percent_encode json_level"

text \<open>
  The host: whole numbers printed in decimal, the two parsers as the table of what they
  return on the texts used below (\<^verbatim>\<open>JSON.parse\<close> raises on any other text here, as it
  does on \<^verbatim>\<open>invalid\<close>), and a serializer that returns the rows as they are, as the
  library does for rows of strings, numbers and booleans.
\<close>

definition stub_host :: host where
  "stub_host =
     \<lparr>number_to_string = (\<lambda>q. if q < 0 then ''-'' @ show_nat (nat \<lfloor>- q\<rfloor>) else show_nat (nat \<lfloor>q\<rfloor>)),
      encodeURIComponent = (\<lambda>s. Inr (percent_encode s)),
      qs_parse = (\<lambda>raw.
        if raw = ''fields=invalid&count=5''
          then Obj [(''fields'', Str ''invalid''), (''count'', Str ''5'')]
        else if raw = qs_age
          then Obj [(''fields'', Arr [Obj [(''name'', Str ''age''), (''type'', Str ''number''),
                                          (''min'', Str ''18''), (''max'', Str ''65'')]])]
        else if raw = raw_json_age
          then Obj [(''fields'', Str json_age)]
        else if raw = qs_level
          then Obj [(''fields'', Arr [Obj [(''name'', Str ''level''), (''type'', Str ''enum''),
                                          (''values'', Arr [Str ''1'', Str ''2''])]])]
        else if raw = raw_json_level
          then Obj [(''fields'', Str json_level)]
        else Obj []),
      JSON_parse = (\<lambda>s.
        if s = json_age
          then Some (Arr [Obj [(''name'', Str ''age''), (''type'', Str ''number''),
                               (''min'', Num (Fin 18)), (''max'', Num (Fin 65))]])
        else if s = json_level
          then Some (Arr [Obj [(''name'', Str ''level''), (''type'', Str ''enum''),
                               (''values'', Arr [Num (Fin 1), Num (Fin 2)])]])
        else None),
      SuperJSON_roundtrip = (\<lambda>data. Inr data)\<rparr>"

section \<open>Notions used to state the properties\<close>

text \<open>
  The value a dotted path names in the capability tree when every segment is found, and
  \<open>None\<close> when one is missing (the source has no such function: its loop keeps the value
  reached so far).
\<close>

fun path_target :: "jsval \<Rightarrow> string list \<Rightarrow> jsval option" where
  "path_target v [] = Some v"
| "path_target v (k # ks) =
     (case v of
        Obj kvs \<Rightarrow> (case map_of kvs k of Some v' \<Rightarrow> path_target v' ks | None \<Rightarrow> None)
      | _ \<Rightarrow> None)"

text \<open>The values the value generator returns for the fields of a schema, in schema order.\<close>

fun gen_values :: "'r faker \<Rightarrow> FieldDefinition list \<Rightarrow> 'r world \<Rightarrow> (exn + jsval list) \<times> 'r world" where
  "gen_values F [] w = (Inr [], w)"
| "gen_values F (f # fs) w =
     (case generateFieldValue F f w of
        (Inl e, w1) \<Rightarrow> (Inl e, w1)
      | (Inr v, w1) \<Rightarrow>
          (case gen_values F fs w1 of
             (Inl e, w2) \<Rightarrow> (Inl e, w2)
           | (Inr vs, w2) \<Rightarrow> (Inr (v # vs), w2)))"

text \<open>The names of a schema, each once, in the order of their first occurrence.\<close>

definition names_in_order :: "string list \<Rightarrow> string list" where
  "names_in_order ks = foldl (\<lambda>acc k. if k \<in> set acc then acc else acc @ [k]) [] ks"

text \<open>A name that makes an ordinary property, kept where it was created.\<close>

definition plain_name :: "string \<Rightarrow> bool" where
  "plain_name k = (k \<noteq> ''__proto__'' \<and> \<not> is_array_index k)"

definition row_of :: "FieldDefinition list \<Rightarrow> jsval list \<Rightarrow> row \<Rightarrow> bool" where
  "row_of fs vs r =
     (map fst r = names_in_order (map name fs)
      \<and> map_of r = map_of (rev (zip (map name fs) vs)))"

text \<open>
  A field whose value comes from the type-based handler alone, and two worlds that agree
  on what that handler reads: the randomizer state and the clock.
\<close>

definition seed_determined :: "FieldDefinition \<Rightarrow> bool" where
  "seed_determined f = (enum_values f = None \<and> (related f = None \<or> related f = Some []))"

definition same_source :: "'r world \<Rightarrow> 'r world \<Rightarrow> bool" where
  "same_source w1 w2 = (rng w1 = rng w2 \<and> clock w1 = clock w2)"

text \<open>
  The two ways a client submits one schema. As a JSON string, \<^verbatim>\<open>JSON.parse\<close> gives the
  attributes back with their types, absent ones left out. In array notation every
  attribute travels as text: the query-string parser delivers each scalar as the string
  that prints it, and an empty sequence cannot be written.
\<close>

definition opt_attr :: "string \<Rightarrow> 'a option \<Rightarrow> ('a \<Rightarrow> jsval) \<Rightarrow> (string \<times> jsval) list" where
  "opt_attr k x g = (case x of None \<Rightarrow> [] | Some a \<Rightarrow> [(k, g a)])"

definition json_form :: "FieldDefinition \<Rightarrow> jsval" where
  "json_form f =
     Obj ([(''name'', Str (name f)), (''type'', Str (ftype f))]
          @ opt_attr ''related'' (related f) Str
          @ opt_attr ''values'' (fvalues f) Arr
          @ opt_attr ''min'' (fmin f) (\<lambda>q. Num (Fin q))
          @ opt_attr ''max'' (fmax f) (\<lambda>q. Num (Fin q))
          @ opt_attr ''length'' (flength f) (\<lambda>q. Num (Fin q))
          @ opt_attr ''format'' (format f) Str)"

definition qs_form :: "(rat \<Rightarrow> string) \<Rightarrow> FieldDefinition \<Rightarrow> jsval" where
  "qs_form fmt f =
     Obj ([(''name'', Str (name f)), (''type'', Str (ftype f))]
          @ opt_attr ''related'' (related f) Str
          @ opt_attr ''values'' (case fvalues f of Some [] \<Rightarrow> None | x \<Rightarrow> x)
              (\<lambda>vs. Arr (map (\<lambda>v. Str (ToString fmt v)) vs))
          @ opt_attr ''min'' (fmin f) (\<lambda>q. Str (fmt q))
          @ opt_attr ''max'' (fmax f) (\<lambda>q. Str (fmt q))
          @ opt_attr ''length'' (flength f) (\<lambda>q. Str (fmt q))
          @ opt_attr ''format'' (format f) Str)"

text \<open>
  A field that can be written in either notation without loss: its enum values, if any,
  are a non-empty sequence of strings. And what the runtime guarantees of a number
  \<open>x\<close>: \<^verbatim>\<open>Number(String(x))\<close> is \<open>x\<close> (the printer is a parameter, so this is said of it
  where it is used, for the numeric attributes of a field).
\<close>

fun is_string :: "jsval \<Rightarrow> bool" where
  "is_string (Str s) = True"
| "is_string v = False"

definition reads_back :: "(rat \<Rightarrow> string) \<Rightarrow> rat option \<Rightarrow> bool" where
  "reads_back fmt x = (case x of None \<Rightarrow> True | Some q \<Rightarrow> StringToNumber (fmt q) = Fin q)"

definition notation_independent :: "FieldDefinition \<Rightarrow> bool" where
  "notation_independent f =
     (case fvalues f of None \<Rightarrow> True | Some vs \<Rightarrow> vs \<noteq> [] \<and> list_all is_string vs)"

definition numbers_read_back :: "(rat \<Rightarrow> string) \<Rightarrow> FieldDefinition \<Rightarrow> bool" where
  "numbers_read_back fmt f =
     (reads_back fmt (fmin f) \<and> reads_back fmt (fmax f) \<and> reads_back fmt (flength f))"

text \<open>
  One attribute as each notation delivers it (\<open>json_\<close>, \<open>qs_\<close>), as one pass of the
  normalizer leaves the array-notation one (\<open>once_\<close>) and as the normalizer leaves it in
  the end (\<open>opt_\<close>); and the field objects made of them.
\<close>

definition json_text :: "string option \<Rightarrow> jsval" where
  "json_text x = (case x of Some s \<Rightarrow> Str s | None \<Rightarrow> Undefined)"

definition json_num :: "rat option \<Rightarrow> jsval" where
  "json_num x = (case x of Some q \<Rightarrow> Num (Fin q) | None \<Rightarrow> Undefined)"

definition qs_num :: "(rat \<Rightarrow> string) \<Rightarrow> rat option \<Rightarrow> jsval" where
  "qs_num fmt x = (case x of Some q \<Rightarrow> Str (fmt q) | None \<Rightarrow> Undefined)"

definition json_values :: "jsval list option \<Rightarrow> jsval" where
  "json_values x = (case x of Some vs \<Rightarrow> Arr vs | None \<Rightarrow> Undefined)"

definition qs_values :: "(rat \<Rightarrow> string) \<Rightarrow> jsval list option \<Rightarrow> jsval" where
  "qs_values fmt x =
     (case x of
        Some vs \<Rightarrow> if vs = [] then Undefined else Arr (map (\<lambda>v. Str (ToString fmt v)) vs)
      | None \<Rightarrow> Undefined)"

definition opt_text :: "string option \<Rightarrow> jsval" where
  "opt_text x = (case x of Some s \<Rightarrow> if s \<noteq> [] then Str s else Undefined | None \<Rightarrow> Undefined)"

definition opt_num :: "rat option \<Rightarrow> jsval" where
  "opt_num x = (case x of Some q \<Rightarrow> if q \<noteq> 0 then Num (Fin q) else Undefined | None \<Rightarrow> Undefined)"

definition once_num :: "(rat \<Rightarrow> string) \<Rightarrow> rat option \<Rightarrow> jsval" where
  "once_num fmt x =
     (case x of Some q \<Rightarrow> if fmt q \<noteq> [] then Num (Fin q) else Undefined | None \<Rightarrow> Undefined)"

definition normal_form :: "FieldDefinition \<Rightarrow> jsval" where
  "normal_form f =
     Obj [(''name'', Str (name f)), (''type'', Str (ftype f)),
          (''related'', opt_text (related f)),
          (''values'', json_values (fvalues f)),
          (''min'', opt_num (fmin f)), (''max'', opt_num (fmax f)),
          (''length'', opt_num (flength f)),
          (''format'', opt_text (format f))]"

definition once_form :: "(rat \<Rightarrow> string) \<Rightarrow> FieldDefinition \<Rightarrow> jsval" where
  "once_form fmt f =
     Obj [(''name'', Str (name f)), (''type'', Str (ftype f)),
          (''related'', opt_text (related f)),
          (''values'', json_values (fvalues f)),
          (''min'', once_num fmt (fmin f)), (''max'', once_num fmt (fmax f)),
          (''length'', once_num fmt (flength f)),
          (''format'', opt_text (format f))]"

section \<open>Properties of the rounding\<close>

lemma floor_numeral_div: "\<lfloor>numeral a / numeral b :: rat\<rfloor> = numeral a div numeral b"
  using floor_divide_of_int_eq [of "numeral a" "numeral b", where ?'a = rat] by simp

text \<open>
  Two roundings: the double of \<open>1/10\<close>, and the product of the double of \<open>7/10\<close> with 10,
  which is 7 although the exact product is below 7.
\<close>

lemma round_double_tenth: "round_double (1 / 10) = Fin (3602879701896397 / 36028797018963968)"
  by (simp add: round_double_def ulp_def binade.simps round_half_even_def Let_def floor_numeral_div)

lemma round_double_product:
  "round_double (3152519739159347 / 4503599627370496 * 10) = Fin 7
   \<and> \<lfloor>3152519739159347 / 4503599627370496 * 10 :: rat\<rfloor> = 6"
  by (simp add: round_double_def ulp_def binade.simps round_half_even_def floor_numeral_div)

lemma round_double_0: "round_double 0 = Fin 0"
  by (simp add: round_double_def)

lemma round_double_1: "round_double 1 = Fin 1"
  by (simp add: round_double_def ulp_def binade.simps round_half_even_def)

lemma round_half_even_int: "round_half_even (of_int z) = z"
  by (simp add: round_half_even_def)

lemma round_half_even_bounds:
  "of_int (round_half_even x) \<le> x + 1 / 2" "x - 1 / 2 \<le> of_int (round_half_even x)"
proof -
  have a: "of_int \<lfloor>x\<rfloor> \<le> x" and b: "x < of_int \<lfloor>x\<rfloor> + 1"
    by linarith+
  show "of_int (round_half_even x) \<le> x + 1 / 2"
    unfolding round_half_even_def using a b by (simp split: if_splits) linarith
  show "x - 1 / 2 \<le> of_int (round_half_even x)"
    unfolding round_half_even_def using a b by (simp split: if_splits)
qed

lemma round_half_even_nonneg: "0 \<le> x \<Longrightarrow> 0 \<le> round_half_even x"
  by (simp add: round_half_even_def)

lemma binade_bounds:
  "0 < a \<Longrightarrow> 2 powi binade a \<le> a \<and> a < 2 powi (binade a + 1)"
proof (induction a rule: binade.induct)
  case (1 a)
  show ?case
  proof (cases "2 \<le> a")
    case True
    then have b: "binade a = binade (a / 2) + 1"
      using 1(3) by (subst binade.simps) simp
    have "2 powi binade (a / 2) \<le> a / 2 \<and> a / 2 < 2 powi (binade (a / 2) + 1)"
      using 1(1) 1(3) True by simp
    then show ?thesis
      by (simp add: b power_int_add)
  next
    case False
    show ?thesis
    proof (cases "a < 1")
      case True
      then have b: "binade a = binade (a * 2) - 1"
        using 1(3) False by (subst binade.simps) simp
      have "2 powi binade (a * 2) \<le> a * 2 \<and> a * 2 < 2 powi (binade (a * 2) + 1)"
        using 1(2) 1(3) False True by simp
      then show ?thesis
        by (simp add: b power_int_add power_int_diff)
    next
      case F2: False
      then have "binade a = 0"
        using 1(3) False by (subst binade.simps) simp
      then show ?thesis
        using False F2 by simp
    qed
  qed
qed


text \<open>
  A number that is a whole multiple of the spacing is a double; so is every whole number
  below \<^verbatim>\<open>2^53\<close>.
\<close>

lemma ulp_pos: "0 < ulp a"
  by (simp add: ulp_def)

lemma round_double_exact:
  assumes "0 < a" and "a < 2 ^ 1024" and "a / ulp a = of_int m"
  shows "round_double a = Fin a" and "round_double (- a) = Fin (- a)"
proof -
  have "of_int (round_half_even (a / ulp a)) = a / ulp a"
    by (simp add: assms(3) round_half_even_int)
  then have "of_int (round_half_even (a / ulp a)) * ulp a = a"
    using ulp_pos [of a] by simp
  then show "round_double a = Fin a" and "round_double (- a) = Fin (- a)"
    using assms(1,2) by (simp_all add: round_double_def Let_def)
qed

lemma round_double_nat:
  assumes "n < 2 ^ 53"
  shows "round_double (of_nat n) = Fin (of_nat n)"
proof (cases "n = 0")
  case True
  then show ?thesis by (simp add: round_double_def)
next
  case False
  define a :: rat where "a = of_nat n"
  have "(of_nat n :: rat) < of_nat (2 ^ 53)"
    using assms by (simp only: of_nat_less_iff)
  then have a2: "a < 2 ^ 53"
    by (simp add: a_def)
  have "(of_nat 1 :: rat) \<le> of_nat n"
    using False by simp
  then have a1: "1 \<le> a"
    by (simp add: a_def)
  have bb: "2 powi binade a \<le> a" "a < 2 powi (binade a + 1)"
    using binade_bounds [of a] a1 by simp_all
  have hi: "binade a < 53"
  proof (rule ccontr)
    assume "\<not> binade a < 53"
    then have "(2::rat) powi 53 \<le> 2 powi binade a"
      by (intro power_int_increasing) simp_all
    then show False
      using bb(1) a2 by simp
  qed
  have lo: "0 \<le> binade a"
  proof (rule ccontr)
    assume "\<not> 0 \<le> binade a"
    then have "(2::rat) powi (binade a + 1) \<le> 2 powi 0"
      by (intro power_int_increasing) simp_all
    then show False
      using bb(2) a1 by simp
  qed
  define k where "k = nat (52 - binade a)"
  have e: "max (binade a) (- 1022) - 52 = - int k"
    using lo hi by (simp add: k_def)
  have u: "ulp a = inverse (2 ^ k)"
    by (simp add: ulp_def e power_int_minus)
  have "a / ulp a = a * 2 ^ k"
    by (simp add: u divide_inverse)
  then have q: "a / ulp a = of_int (int n * 2 ^ k)"
    by (simp add: a_def)
  have lt: "a < 2 ^ 1024"
    using a2 by (rule less_trans) simp
  have pos: "0 < a"
    using a1 by simp
  have "round_double a = Fin a"
    using pos lt q by (rule round_double_exact(1))
  then show ?thesis
    unfolding a_def .
qed


lemma ulp_normal: "- 1022 \<le> binade a \<Longrightarrow> ulp a = 2 powi binade a / 2 ^ 52"
  by (simp add: ulp_def max_def power_int_diff)

lemma ulp_subnormal: "binade a < - 1022 \<Longrightarrow> ulp a = 2 powi (- 1074)"
  by (simp add: ulp_def max_def)

lemma round_double_pos:
  assumes "0 < a" and "of_int (round_half_even (a / ulp a)) * ulp a < 2 ^ 1024"
  shows "round_double a = Fin (of_int (round_half_even (a / ulp a)) * ulp a)"
  using assms by (simp add: round_double_def Let_def)

lemma rounded_upper:
  assumes "0 < a"
  shows "of_int (round_half_even (a / ulp a)) * ulp a \<le> a + ulp a / 2"
proof -
  have "of_int (round_half_even (a / ulp a)) * ulp a \<le> (a / ulp a + 1 / 2) * ulp a"
    using round_half_even_bounds(1) [of "a / ulp a"] ulp_pos [of a] by (intro mult_right_mono) simp_all
  also have "\<dots> = a + ulp a / 2"
    using ulp_pos [of a] by (simp add: algebra_simps)
  finally show ?thesis .
qed

lemma rounded_nonneg:
  assumes "0 < a"
  shows "0 \<le> of_int (round_half_even (a / ulp a)) * ulp a"
proof -
  have "0 \<le> a / ulp a"
    using assms ulp_pos [of a] by simp
  then have "0 \<le> round_half_even (a / ulp a)"
    by (rule round_half_even_nonneg)
  then show ?thesis
    using ulp_pos [of a] by simp
qed

lemma round_double_below:
  assumes "0 \<le> r" and "r \<le> 1 - 1 / 2 ^ 53" and "0 < n" and "n < 2 ^ 32"
  shows "\<exists>x. round_double (r * of_nat n) = Fin x \<and> 0 \<le> x \<and> x < of_nat n"
proof (cases "r * of_nat n = 0")
  case True
  then show ?thesis
    using assms(3) by (simp add: round_double_def)
next
  case False
  define a where "a = r * of_nat n"
  define c :: rat where "c = 1 / 2 ^ 53"
  define N :: rat where "N = of_nat n"
  have c: "0 < c" by (simp add: c_def)
  have N: "1 \<le> N" using assms(3) by (simp add: N_def)
  have a: "0 < a"
    using False assms(1,3) by (simp add: a_def zero_less_mult_iff)
  have "r * N \<le> (1 - c) * N"
    using assms(2) N by (intro mult_right_mono) (simp_all add: c_def)
  then have aN: "a \<le> N * (1 - c)"
    by (simp add: a_def N_def mult.commute)
  have bb: "2 powi binade a \<le> a" "a < 2 powi (binade a + 1)"
    using binade_bounds [of a] a by simp_all
  have up: "a + ulp a / 2 < N"
  proof (cases "- 1022 \<le> binade a")
    case True
    have "ulp a / 2 = 2 powi binade a * c"
      by (simp add: ulp_normal [OF True] c_def)
    also have "\<dots> \<le> a * c"
      using bb(1) c by (intro mult_right_mono) simp_all
    finally have "a + ulp a / 2 \<le> a * (1 + c)"
      by (simp add: algebra_simps)
    also have "\<dots> \<le> N * (1 - c) * (1 + c)"
      using aN c by (intro mult_right_mono) simp_all
    also have "\<dots> = N - N * (c * c)"
      by (simp add: algebra_simps)
    also have "\<dots> < N"
      using N c by simp
    finally show ?thesis .
  next
    case sub: False
    then have u: "ulp a = 2 powi (- 1074)"
      by (simp add: ulp_subnormal)
    have "(2::rat) powi (binade a + 1) \<le> 2 powi (- 1)"
      using sub by (intro power_int_increasing) simp_all
    then have "a < 1 / 2"
      using bb(2) by simp
    moreover have "(2::rat) powi (- 1074) \<le> 2 powi (- 1)"
      by (intro power_int_increasing) simp_all
    then have "ulp a / 2 < 1 / 2"
      by (simp add: u)
    ultimately show ?thesis
      using N by linarith
  qed
  define x where "x = of_int (round_half_even (a / ulp a)) * ulp a"
  have xN: "x < N"
    using rounded_upper [OF a] up by (simp add: x_def)
  have "N < 2 ^ 1024"
  proof -
    have "(of_nat n :: rat) < of_nat (2 ^ 32)"
      using assms(4) by (simp only: of_nat_less_iff)
    then have "N < 2 ^ 32"
      by (simp add: N_def)
    then show ?thesis
      by (rule less_trans) simp
  qed
  then have "x < 2 ^ 1024"
    using xN by simp
  then have "round_double a = Fin x"
    unfolding x_def using a by (intro round_double_pos)
  moreover have "0 \<le> x"
    unfolding x_def using a by (rule rounded_nonneg)
  ultimately show ?thesis
    using xN by (auto simp: a_def N_def)
qed

lemma round_double_overflow:
  assumes "2 ^ 1024 \<le> a"
  shows "round_double a = PosInf" and "round_double (- a) = NegInf"
proof -
  have a: "0 < a"
    using assms by (rule less_le_trans [rotated]) simp
  have bb: "2 powi binade a \<le> a" "a < 2 powi (binade a + 1)"
    using binade_bounds [of a] a by simp_all
  have e: "1024 \<le> binade a"
  proof (rule ccontr)
    assume "\<not> 1024 \<le> binade a"
    then have "(2::rat) powi (binade a + 1) \<le> 2 powi 1024"
      by (intro power_int_increasing) simp_all
    then show False
      using bb(2) assms by simp
  qed
  then have u: "ulp a = 2 powi binade a / 2 ^ 52"
    by (intro ulp_normal) simp
  have "of_int (2 ^ 52) \<le> a / ulp a"
    using bb(1) ulp_pos [of a] by (simp add: u field_simps)
  then have "2 ^ 52 \<le> \<lfloor>a / ulp a\<rfloor>"
    by (simp only: le_floor_iff)
  moreover have "\<lfloor>a / ulp a\<rfloor> \<le> round_half_even (a / ulp a)"
    by (simp add: round_half_even_def)
  ultimately have "(2 ^ 52 :: rat) \<le> of_int (round_half_even (a / ulp a))"
    by (metis of_int_le_iff of_int_numeral of_int_power order_trans)
  then have "2 ^ 52 * ulp a \<le> of_int (round_half_even (a / ulp a)) * ulp a"
    using ulp_pos [of a] by (intro mult_right_mono) simp_all
  moreover have "2 ^ 52 * ulp a = 2 powi binade a"
    by (simp add: u)
  moreover have "(2::rat) powi 1024 \<le> 2 powi binade a"
    using e by (intro power_int_increasing) simp_all
  ultimately have "2 ^ 1024 \<le> of_int (round_half_even (a / ulp a)) * ulp a"
    by simp
  then show "round_double a = PosInf" and "round_double (- a) = NegInf"
    using a by (simp_all add: round_double_def Let_def)
qed

lemma round_double_underflow:
  assumes "0 < a" and "a < 2 powi (- 1075)"
  shows "round_double a = Fin 0" and "round_double (- a) = Fin 0"
proof -
  have bb: "2 powi binade a \<le> a" "a < 2 powi (binade a + 1)"
    using binade_bounds [of a] assms(1) by simp_all
  have e: "binade a < - 1022"
  proof (rule ccontr)
    assume "\<not> binade a < - 1022"
    then have "(2::rat) powi (- 1075) \<le> 2 powi binade a"
      by (intro power_int_increasing) simp_all
    then show False
      using bb(1) assms(2) by simp
  qed
  have u: "ulp a = 2 powi (- 1074)"
    using e by (rule ulp_subnormal)
  have "a / ulp a < 2 powi (- 1075) / 2 powi (- 1074)"
    using assms(2) by (simp add: u divide_strict_right_mono)
  also have "\<dots> = 1 / 2"
    by (simp flip: power_int_diff)
  finally have h: "a / ulp a < 1 / 2" .
  have "0 \<le> a / ulp a"
    using assms(1) ulp_pos [of a] by simp
  moreover have "a / ulp a < 1"
    using h by linarith
  ultimately have "\<lfloor>a / ulp a\<rfloor> = 0"
    by (simp add: floor_eq_iff)
  then have "round_half_even (a / ulp a) = 0"
    using h by (simp add: round_half_even_def)
  then show "round_double a = Fin 0" and "round_double (- a) = Fin 0"
    using assms(1) by (simp_all add: round_double_def Let_def)
qed

lemma round_double_whole:
  "round_double (of_int z) = PosInf \<or> round_double (of_int z) = NegInf
   \<or> (\<exists>k::int. round_double (of_int z) = Fin (of_int k))"
proof (cases "z = 0")
  case True
  then show ?thesis
    by (auto simp: round_double_def intro: exI [of _ 0])
next
  case False
  define a :: rat where "a = \<bar>of_int z\<bar>"
  have a1: "1 \<le> a"
    using False by (simp add: a_def flip: of_int_abs)
  have bb: "2 powi binade a \<le> a" "a < 2 powi (binade a + 1)"
    using binade_bounds [of a] a1 by simp_all
  have lo: "0 \<le> binade a"
  proof (rule ccontr)
    assume "\<not> 0 \<le> binade a"
    then have "(2::rat) powi (binade a + 1) \<le> 2 powi 0"
      by (intro power_int_increasing) simp_all
    then show False
      using bb(2) a1 by simp
  qed
  have "\<exists>j::int. of_int (round_half_even (a / ulp a)) * ulp a = of_int j"
  proof (cases "binade a \<le> 52")
    case True
    define k where "k = nat (52 - binade a)"
    have "max (binade a) (- 1022) - 52 = - int k"
      using lo True by (simp add: k_def)
    then have u: "ulp a = inverse (2 ^ k)"
      by (simp add: ulp_def power_int_minus)
    have "a / ulp a = a * 2 ^ k"
      by (simp add: u divide_inverse)
    then have "a / ulp a = of_int (\<bar>z\<bar> * 2 ^ k)"
      by (simp add: a_def)
    then have "of_int (round_half_even (a / ulp a)) = a / ulp a"
      by (simp only: round_half_even_int)
    then have "of_int (round_half_even (a / ulp a)) * ulp a = of_int \<bar>z\<bar>"
      using ulp_pos [of a] by (simp add: a_def)
    then show ?thesis ..
  next
    case False
    define k where "k = nat (binade a - 52)"
    have "max (binade a) (- 1022) - 52 = int k"
      using False by (simp add: k_def)
    then have "ulp a = 2 ^ k"
      by (simp only: ulp_def power_int_of_nat)
    then have "of_int (round_half_even (a / ulp a)) * ulp a = of_int (round_half_even (a / ulp a) * 2 ^ k)"
      by simp
    then show ?thesis ..
  qed
  then obtain j :: int where j: "of_int (round_half_even (a / ulp a)) * ulp a = of_int j"
    by blast
  have "round_double (of_int z)
      = (if 2 ^ 1024 \<le> (of_int j :: rat) then (if 0 < z then PosInf else NegInf)
         else Fin (of_int (if 0 < z then j else - j)))"
    using False j by (simp add: round_double_def Let_def a_def)
  moreover have "\<exists>k::int. - (of_int j :: rat) = of_int k"
    by (rule exI [of _ "- j"]) simp
  ultimately show ?thesis
    by (cases "2 ^ 1024 \<le> (of_int j :: rat)"; cases "0 < z") auto
qed

section \<open>Properties of the normalizer\<close>

lemma StringToNumber_zero: "StringToNumber ''0'' = Fin 0"
  by (simp add: StringToNumber_def trim_def is_ws_def radix_literal_def unsigned_decimal_def
      mantissa_of_def is_digit_def digit_of_def digits_val_def round_double_0)

text \<open>
  \<^verbatim>\<open>Number\<close> rounds what it reads: \<^verbatim>\<open>"0.1"\<close> is the double of \<open>1/10\<close>, \<^verbatim>\<open>"1e400"\<close> is
  \<^verbatim>\<open>Infinity\<close> and \<^verbatim>\<open>"1e-400"\<close> is 0.
\<close>

lemma StringToNumber_tenth: "StringToNumber ''0.1'' = Fin (3602879701896397 / 36028797018963968)"
  using round_double_tenth
  by (simp add: StringToNumber_def trim_def is_ws_def radix_literal_def unsigned_decimal_def
      mantissa_of_def is_digit_def digit_of_def digits_val_def)

lemma StringToNumber_overflow: "StringToNumber ''1e400'' = PosInf"
proof -
  have "round_double (10 ^ 400) = PosInf"
    by (rule round_double_overflow) simp
  then show ?thesis
    by (simp add: StringToNumber_def trim_def is_ws_def radix_literal_def unsigned_decimal_def
        mantissa_of_def exponent_of_def all_digits_def is_digit_def digit_of_def digits_val_def)
qed

lemma StringToNumber_underflow: "StringToNumber ''1e-400'' = Fin 0"
proof -
  have "round_double (1 / 10 ^ 400) = Fin 0"
    by (rule round_double_underflow) simp_all
  then show ?thesis
    by (simp add: StringToNumber_def trim_def is_ws_def radix_literal_def unsigned_decimal_def
        mantissa_of_def exponent_of_def all_digits_def is_digit_def digit_of_def digits_val_def)
qed

text \<open>
  Claim C4 says that the normalizer coerces \<^verbatim>\<open>min\<close>, \<^verbatim>\<open>max\<close> and \<^verbatim>\<open>length\<close> to numbers
  whenever they are present and non-empty, zero values included. The test it applies is
  truthiness: on a raw field whose three numeric attributes are the number 0 it returns
  all three absent, while the string \<^verbatim>\<open>"0"\<close> is coerced to the number 0.
\<close>

theorem normalizeFields_zero_dropped:
  "normalizeFields fmt
     (Arr [Obj [(''name'', Str ''n''), (''type'', Str ''number''),
                (''min'', Num (Fin 0)), (''max'', Num (Fin 0)), (''length'', Num (Fin 0))]])
   = Inr (Arr [Obj [(''name'', Str ''n''), (''type'', Str ''number''), (''related'', Undefined),
                    (''values'', Undefined), (''min'', Undefined), (''max'', Undefined),
                    (''length'', Undefined), (''format'', Undefined)]])
   \<and> normalizeFields fmt
     (Arr [Obj [(''name'', Str ''n''), (''type'', Str ''number''),
                (''min'', Str ''0''), (''max'', Str ''0''), (''length'', Str ''0'')]])
   = Inr (Arr [Obj [(''name'', Str ''n''), (''type'', Str ''number''), (''related'', Undefined),
                    (''values'', Undefined), (''min'', Num (Fin 0)), (''max'', Num (Fin 0)),
                    (''length'', Num (Fin 0)), (''format'', Undefined)]])"
  by (simp add: normalizeFields_def normalizeField_def StringToNumber_zero)

text \<open>
  Claim C10 says that normalizing twice gives what normalizing once gives. A field that
  arrives in array notation with \<^verbatim>\<open>max=0\<close> has the string \<^verbatim>\<open>"0"\<close>: the first pass makes
  it the number 0, and the second pass, which the GET route always runs, takes that 0
  for an absent attribute.
\<close>

theorem normalizeFields_twice_differs:
  "normalizeFields fmt
     (Arr [Obj [(''name'', Str ''n''), (''type'', Str ''number''), (''max'', Str ''0'')]])
   = Inr (Arr [Obj [(''name'', Str ''n''), (''type'', Str ''number''), (''related'', Undefined),
                    (''values'', Undefined), (''min'', Undefined), (''max'', Num (Fin 0)),
                    (''length'', Undefined), (''format'', Undefined)]])
   \<and> normalizeFields fmt
       (Arr [Obj [(''name'', Str ''n''), (''type'', Str ''number''), (''related'', Undefined),
                  (''values'', Undefined), (''min'', Undefined), (''max'', Num (Fin 0)),
                  (''length'', Undefined), (''format'', Undefined)]])
   = Inr (Arr [Obj [(''name'', Str ''n''), (''type'', Str ''number''), (''related'', Undefined),
                    (''values'', Undefined), (''min'', Undefined), (''max'', Undefined),
                    (''length'', Undefined), (''format'', Undefined)]])"
  by (simp add: normalizeFields_def normalizeField_def StringToNumber_zero)

section \<open>Properties of the generator\<close>

lemma set_property_role: "set_property [] ''role'' v = [(''role'', v)]"
  by (simp add: set_property_def is_array_index_def all_digits_def is_digit_def digit_of_def)

lemma rows_loop_one:
  "rows_loop F fs 1 0 [] w =
     (case build_row F fs [] w of (Inl e, w1) \<Rightarrow> (Inl e, w1) | (Inr r, w1) \<Rightarrow> (Inr [r], w1))"
  by (simp add: rows_loop.simps [of F fs 1 0] rows_loop.simps [of F fs 1 "Suc 0"]
      split: prod.splits sum.splits)

text \<open>
  Claim C1 says that the same seed, fields and count give the same rows, for every field
  type. The enum branch draws from \<^verbatim>\<open>Math.random\<close>, which \<^verbatim>\<open>faker.seed\<close> does not
  touch: with the seed 123 and one enum field, two runs that differ only in what the
  host's random source delivers return different rows, whatever the value source is.
\<close>

theorem seeded_enum_rows_differ:
  "fst (generateMockData F
          \<lparr>qfields = [(plain_field ''role'' ''enum'')\<lparr>fvalues := Some [Str ''admin'', Str ''user'']\<rparr>],
           count = Some 1, seed = Some 123\<rparr>
          (w\<lparr>host_draws := (\<lambda>i. 0)\<rparr>)) = Inr [[(''role'', Str ''admin'')]]
   \<and> fst (generateMockData F
          \<lparr>qfields = [(plain_field ''role'' ''enum'')\<lparr>fvalues := Some [Str ''admin'', Str ''user'']\<rparr>],
           count = Some 1, seed = Some 123\<rparr>
          (w\<lparr>host_draws := (\<lambda>i. 1 / 2)\<rparr>)) = Inr [[(''role'', Str ''user'')]]"
  by (simp add: generateMockData_def rows_loop_one generateFieldValue_def enum_values_def
      plain_field_def Math_random_def enum_pick_def round_double_0 round_double_1 index_def
      set_property_role)

text \<open>
  A date field escapes the seed as well: its value is what the library makes of the
  seeded state and of the clock, which is the reference date of \<^verbatim>\<open>date.recent\<close>.
\<close>

lemma seeded_date_reads_clock:
  "generateMockData F \<lparr>qfields = [plain_field ''at'' ''date''], count = Some 1, seed = Some s\<rparr> w
   = (case faker_call F date_recent_toISOString (clock w) (faker_seed F s) of
        (Inr v, r) \<Rightarrow> (Inr [[(''at'', v)]], w\<lparr>rng := r\<rparr>)
      | (Inl e, r) \<Rightarrow> (Inl e, w\<lparr>rng := r\<rparr>))"
  by (simp add: generateMockData_def rows_loop_one generateFieldValue_def enum_values_def
      plain_field_def type_handler_def builtin_call_def set_property_def is_array_index_def
      all_digits_def is_digit_def digit_of_def split: prod.splits sum.splits)

lemma type_handler_same_source:
  assumes "same_source w1 w2"
  shows "fst (type_handler F f w1) = fst (type_handler F f w2)
         \<and> same_source (snd (type_handler F f w1)) (snd (type_handler F f w2))"
  using assms by (simp add: type_handler_def same_source_def split: prod.splits)

lemma generateFieldValue_same_source:
  assumes "seed_determined f" and "same_source w1 w2"
  shows "fst (generateFieldValue F f w1) = fst (generateFieldValue F f w2)
         \<and> same_source (snd (generateFieldValue F f w1)) (snd (generateFieldValue F f w2))"
proof -
  have "generateFieldValue F f w1 = type_handler F f w1" "generateFieldValue F f w2 = type_handler F f w2"
    using assms(1) by (auto simp: generateFieldValue_def seed_determined_def)
  then show ?thesis
    using type_handler_same_source [OF assms(2)] by simp
qed

lemma build_row_same_source:
  assumes "\<forall>f\<in>set fs. seed_determined f" and "same_source w1 w2"
  shows "fst (build_row F fs r w1) = fst (build_row F fs r w2)
         \<and> same_source (snd (build_row F fs r w1)) (snd (build_row F fs r w2))"
  using assms
proof (induction fs arbitrary: r w1 w2)
  case Nil
  then show ?case by simp
next
  case (Cons f fs)
  obtain a1 u1 where g1: "generateFieldValue F f w1 = (a1, u1)"
    by (cases "generateFieldValue F f w1")
  obtain a2 u2 where g2: "generateFieldValue F f w2 = (a2, u2)"
    by (cases "generateFieldValue F f w2")
  have "seed_determined f"
    using Cons.prems(1) by simp
  then have eq: "a1 = a2" and ss: "same_source u1 u2"
    using generateFieldValue_same_source [of f w1 w2 F] Cons.prems(2) g1 g2 by simp_all
  show ?case
  proof (cases a1)
    case (Inl e)
    moreover have "a2 = Inl e"
      using eq Inl by simp
    ultimately show ?thesis
      using ss by (simp add: g1 g2)
  next
    case (Inr v)
    have "fst (build_row F fs (set_property r (name f) v) u1) = fst (build_row F fs (set_property r (name f) v) u2)
         \<and> same_source (snd (build_row F fs (set_property r (name f) v) u1))
              (snd (build_row F fs (set_property r (name f) v) u2))"
      using Cons.prems(1) ss by (intro Cons.IH) simp_all
    moreover have "a2 = Inr v"
      using eq Inr by simp
    ultimately show ?thesis
      by (simp add: g1 g2 Inr)
  qed
qed

lemma rows_loop_same_source:
  assumes "\<forall>f\<in>set fs. seed_determined f"
  shows "same_source w1 w2 \<Longrightarrow>
         fst (rows_loop F fs n i results w1) = fst (rows_loop F fs n i results w2)"
proof (induction "nat \<lceil>n\<rceil> - i" arbitrary: i results w1 w2)
  case 0
  then have "\<not> of_nat i < n"
    by (simp add: less_ceiling_iff) linarith
  then show ?case
    by (simp add: rows_loop.simps [of F fs n i])
next
  case (Suc d)
  show ?case
  proof (cases "of_nat i < n")
    case False
    then show ?thesis
      by (simp add: rows_loop.simps [of F fs n i])
  next
    case True
    obtain a1 u1 where b1: "build_row F fs [] w1 = (a1, u1)"
      by (cases "build_row F fs [] w1")
    obtain a2 u2 where b2: "build_row F fs [] w2 = (a2, u2)"
      by (cases "build_row F fs [] w2")
    have eq: "a1 = a2" and ss: "same_source u1 u2"
      using build_row_same_source [OF assms Suc.prems, of F "[]"] b1 b2 by simp_all
    show ?thesis
    proof (cases a1)
      case (Inl e)
      moreover have "a2 = Inl e"
        using eq Inl by simp
      ultimately show ?thesis
        using True by (simp add: rows_loop.simps [of F fs n i] b1 b2)
    next
      case (Inr r)
      have "d = nat \<lceil>n\<rceil> - Suc i"
        using Suc.hyps(2) by simp
      then have "fst (rows_loop F fs n (Suc i) (results @ [r]) u1)
                 = fst (rows_loop F fs n (Suc i) (results @ [r]) u2)"
        using ss by (rule Suc.hyps(1))
      moreover have "a2 = Inr r"
        using eq Inr by simp
      ultimately show ?thesis
        using True by (simp add: rows_loop.simps [of F fs n i] b1 b2 Inr)
    qed
  qed
qed

text \<open>
  What the seed does determine: when no field takes the enum branch or has a related
  path, two runs with the same seed and the same clock return the same rows, whatever
  the randomizer state and the host's random source were before.
\<close>

lemma seeded_rows_determined:
  assumes "seed p = Some s" and "\<forall>f\<in>set (qfields p). seed_determined f" and "clock w1 = clock w2"
  shows "fst (generateMockData F p w1) = fst (generateMockData F p w2)"
proof -
  have "same_source (w1\<lparr>rng := faker_seed F s\<rparr>) (w2\<lparr>rng := faker_seed F s\<rparr>)"
    using assms(3) by (simp add: same_source_def)
  then show ?thesis
    using rows_loop_same_source [OF assms(2)] by (simp add: generateMockData_def assms(1))
qed

text \<open>
  For a number field with both bounds, the range asked of the library is the field's own
  whenever the upper bound is not zero.
\<close>

lemma number_request:
  assumes "ftype f = ''number''" and "fmin f = Some lo" and "fmax f = Some hi" and "hi \<noteq> 0"
  shows "builtin_call f = number_int lo hi"
  using assms by (simp add: builtin_call_def or_default_def)

text \<open>
  Claim C2 says that a number field with \<open>min \<le> max\<close>, a bound of 0 included, only gets
  values between its bounds. The upper bound is taken with \<^verbatim>\<open>max || 1000\<close>: for
  \<open>min = -5\<close> and \<open>max = 0\<close> the library is asked for an integer between \<open>-5\<close> and
  \<open>1000\<close>, and the field can get 100.
\<close>

theorem number_max_zero_default:
  "builtin_call ((plain_field ''n'' ''number'')\<lparr>fmin := Some (- 5), fmax := Some 0\<rparr>)
     = number_int (- 5) 1000
   \<and> fst (generateFieldValue stub_faker
            ((plain_field ''n'' ''number'')\<lparr>fmin := Some (- 5), fmax := Some 0\<rparr>)
            (stub_world\<lparr>rng := 105\<rparr>)) = Inr (Num (Fin 100))"
  by (simp add: builtin_call_def or_default_def plain_field_def generateFieldValue_def
      enum_values_def type_handler_def stub_faker_def stub_call_def stub_world_def)

text \<open>
  What holds of the enum branch. It is the first test of the value generator: for a
  field of type enum with a non-empty sequence of values, whatever its related path, the
  value is the pick for the next draw of \<^verbatim>\<open>Math.random\<close>, and the value source is left
  as it was. For a draw that is a double below 1, and values that fit a JavaScript array,
  the pick is a member of the values: the rounded product stays below the number of
  values.
\<close>

lemma enum_branch_first:
  assumes "ftype f = ''enum''" and "fvalues f = Some vs" and "vs \<noteq> []"
  shows "generateFieldValue F f w
         = (Inr (enum_pick vs (host_draws w (host_pos w))), w\<lparr>host_pos := Suc (host_pos w)\<rparr>)"
  using assms by (simp add: generateFieldValue_def enum_values_def Math_random_def)

lemma enum_pick_member:
  assumes "vs \<noteq> []" and "length vs < 2 ^ 32" and "0 \<le> r" and "r \<le> 1 - 1 / 2 ^ 53"
  shows "enum_pick vs r \<in> set vs"
proof -
  have n: "0 < length vs"
    using assms(1) by simp
  obtain x where x: "round_double (r * of_nat (length vs)) = Fin x"
      and lo: "0 \<le> x" and hi: "x < of_nat (length vs)"
    using round_double_below [OF assms(3,4) n assms(2)] by blast
  have f0: "0 \<le> \<lfloor>x\<rfloor>"
    using lo by simp
  have "x < of_int (int (length vs))"
    using hi by simp
  then have f1: "\<lfloor>x\<rfloor> < int (length vs)"
    by (simp only: floor_less_iff)
  have "nat \<lfloor>x\<rfloor> < length vs"
    using f0 f1 by linarith
  moreover have "enum_pick vs r = vs ! nat \<lfloor>x\<rfloor>"
    using f0 f1 by (simp add: enum_pick_def x index_def)
  ultimately show ?thesis
    by simp
qed

text \<open>
  The index is the floor of the rounded product: for the double of \<open>7/10\<close> and ten values
  it is 7, where the floor of the exact product is 6.
\<close>

lemma enum_pick_rounded:
  "enum_pick [Str ''a'', Str ''b'', Str ''c'', Str ''d'', Str ''e'', Str ''f'', Str ''g'',
              Str ''h'', Str ''i'', Str ''j''] (3152519739159347 / 4503599627370496) = Str ''h''"
  using round_double_product by (simp add: enum_pick_def index_def)

text \<open>
  Claim C5 says that the member is chosen by the value source's selection. The enum
  branch takes it with \<^verbatim>\<open>Math.random\<close>, the host's random source: for every value source
  and every state of it, the field with the values \<^verbatim>\<open>admin\<close> and \<^verbatim>\<open>user\<close> gets
  \<^verbatim>\<open>admin\<close> when the host delivers 0 and \<^verbatim>\<open>user\<close> when it delivers 1/2, and the state
  of the value source is the same after the pick as before: the value source takes no
  part in the selection.
\<close>

theorem enum_pick_bypasses_value_source:
  "generateFieldValue F
     ((plain_field ''role'' ''enum'')\<lparr>fvalues := Some [Str ''admin'', Str ''user'']\<rparr>)
     \<lparr>rng = s, host_draws = (\<lambda>i. 0), host_pos = k, clock = t, console = c\<rparr>
   = (Inr (Str ''admin''),
      \<lparr>rng = s, host_draws = (\<lambda>i. 0), host_pos = Suc k, clock = t, console = c\<rparr>)
   \<and> generateFieldValue F
     ((plain_field ''role'' ''enum'')\<lparr>fvalues := Some [Str ''admin'', Str ''user'']\<rparr>)
     \<lparr>rng = s, host_draws = (\<lambda>i. 1 / 2), host_pos = k, clock = t, console = c\<rparr>
   = (Inr (Str ''user''),
      \<lparr>rng = s, host_draws = (\<lambda>i. 1 / 2), host_pos = Suc k, clock = t, console = c\<rparr>)"
  by (simp add: generateFieldValue_def enum_values_def plain_field_def Math_random_def
      enum_pick_def round_double_0 round_double_1 index_def)

text \<open>
  Claim C3 as stated says that a related path whose end is not callable falls through to
  the type-based handler. The path \<^verbatim>\<open>definitions.title\<close> ends at a string: the generator
  returns that string and leaves the randomizer alone, where the handler of the field's
  type would have drawn from it.
\<close>

theorem related_not_callable_counterexample:
  "generateFieldValue stub_faker ((plain_field ''lang'' ''uuid'')\<lparr>related := Some ''definitions.title''\<rparr>)
     stub_world = (Inr (Str ''English''), stub_world)
   \<and> type_handler stub_faker ((plain_field ''lang'' ''uuid'')\<lparr>related := Some ''definitions.title''\<rparr>)
     stub_world = (Inr (Num (Fin 7)), stub_world\<lparr>rng := 599\<rparr>)"
  by (simp add: generateFieldValue_def enum_values_def plain_field_def stub_faker_def
      type_handler_def builtin_call_def stub_call_def stub_world_def lcg_def)

text \<open>
  When a segment is missing the loop stops and the value reached so far is returned: for
  a path whose first segment is unknown, the whole capability tree.
\<close>

lemma related_missing_segment:
  "generateFieldValue stub_faker ((plain_field ''x'' ''uuid'')\<lparr>related := Some ''vehicle.bicycle''\<rparr>)
     stub_world = (Inr (faker_root stub_faker), stub_world)"
  by (simp add: generateFieldValue_def enum_values_def plain_field_def stub_faker_def)

lemma path_target_resolve: "path_target v ks = Some u \<Longrightarrow> resolve v ks = u"
  by (induction ks arbitrary: v) (auto split: jsval.splits option.splits)

text \<open>
  Claim C3, amended. For a field that does not take the enum branch and whose non-empty
  related path names a value of the capability tree: a value that is not callable is
  returned as it is, without the type-based handler; a callable is called and its result
  returned; when the call raises, the failure is written to the console and the value is
  the one of the type-based handler for the field's own type. A failure of the related
  path never leaves the value generator: what it raises, the type-based handler raised.
\<close>

theorem related_path_outcomes:
  assumes "enum_values f = None" and "related f = Some rel" and "rel \<noteq> []"
    and "path_target (faker_root F) (split_on CHR ''.'' rel) = Some v"
  shows "((\<forall>g. v \<noteq> Fn g) \<longrightarrow> generateFieldValue F f w = (Inr v, w))
    \<and> (\<forall>g x w1. v = Fn g \<and> faker_invoke F g w = (Inr x, w1) \<longrightarrow>
          generateFieldValue F f w = (Inr x, w1))
    \<and> (\<forall>g e w1. v = Fn g \<and> faker_invoke F g w = (Inl e, w1) \<longrightarrow>
          generateFieldValue F f w
            = type_handler F f (w1\<lparr>console := console w1 @ [''Error accessing faker.'' @ rel @ '':'']\<rparr>))
    \<and> (\<forall>e. fst (generateFieldValue F f w) = Inl e \<longrightarrow> (\<exists>w'. fst (type_handler F f w') = Inl e))"
proof -
  have r: "resolve (faker_root F) (split_on CHR ''.'' rel) = v"
    using assms(4) by (rule path_target_resolve)
  show ?thesis
    using assms(1-3) r
    by (cases v) (auto simp: generateFieldValue_def split: prod.splits sum.splits)
qed

theorem related_path_outcomes_witness:
  "generateFieldValue stub_faker ((plain_field ''c'' ''boolean'')\<lparr>related := Some ''constructor''\<rparr>)
     stub_world
   = (Inr (Bool False), stub_world\<lparr>rng := 599, console := [''Error accessing faker.constructor:'']\<rparr>)"
proof -
  let ?f = "(plain_field ''c'' ''boolean'')\<lparr>related := Some ''constructor''\<rparr>"
  have h1: "enum_values ?f = None"
    by (simp add: enum_values_def plain_field_def)
  have h2: "related ?f = Some ''constructor''"
    by (simp add: plain_field_def)
  have h3: "''constructor'' \<noteq> []"
    by simp
  have h4: "path_target (faker_root stub_faker) (split_on CHR ''.'' ''constructor'') = Some (Fn ''Faker'')"
    by (simp add: stub_faker_def)
  have inv: "faker_invoke stub_faker ''Faker'' stub_world = (Inl TypeError, stub_world)"
    by (simp add: stub_faker_def)
  have "generateFieldValue stub_faker ?f stub_world
        = type_handler stub_faker ?f
            (stub_world\<lparr>console := console stub_world @ [''Error accessing faker.'' @ ''constructor'' @ '':'']\<rparr>)"
    using related_path_outcomes [OF h1 h2 h3 h4, of stub_world] inv by blast
  then show ?thesis
    by (simp add: type_handler_def builtin_call_def plain_field_def stub_faker_def stub_call_def
        stub_world_def lcg_def)
qed

lemma map_fst_replace:
  "map fst (map (\<lambda>(k', v'). if k' = k then (k', v) else (k', v')) r) = map fst r"
  by (induction r) auto

lemma map_of_replace:
  "map_of (map (\<lambda>(k', v'). if k' = k then (k', v) else (k', v')) r) x
   = (if x = k then (if k \<in> fst ` set r then Some v else None) else map_of r x)"
  by (induction r) force+

lemma set_property_keys:
  assumes "plain_name k"
  shows "map fst (set_property r k v) = (if k \<in> set (map fst r) then map fst r else map fst r @ [k])"
proof (cases "k \<in> fst ` set r")
  case True
  then have "set_property r k v = map (\<lambda>(k', v'). if k' = k then (k', v) else (k', v')) r"
    using assms by (simp add: set_property_def plain_name_def)
  then show ?thesis
    using True by (simp only: map_fst_replace set_map if_True)
next
  case False
  then have "set_property r k v = r @ [(k, v)]"
    using assms by (simp add: set_property_def plain_name_def)
  then show ?thesis
    using False by simp
qed

lemma set_property_map_of:
  assumes "plain_name k"
  shows "map_of (set_property r k v) = (map_of r)(k \<mapsto> v)"
proof (cases "k \<in> fst ` set r")
  case True
  then have "set_property r k v = map (\<lambda>(k', v'). if k' = k then (k', v) else (k', v')) r"
    using assms by (simp add: set_property_def plain_name_def)
  then show ?thesis
    using True by (auto simp: map_of_replace fun_eq_iff)
next
  case False
  then have "map_of r k = None"
    by (simp add: map_of_eq_None_iff)
  then have "map_of (r @ [(k, v)]) = (map_of r)(k \<mapsto> v)"
    by (auto simp: map_add_def fun_eq_iff split: option.splits)
  then show ?thesis
    using assms False by (simp add: set_property_def plain_name_def)
qed

lemma assemble_keys:
  assumes "\<forall>k\<in>set (map fst kvs). plain_name k"
  shows "map fst (foldl (\<lambda>r (k, v). set_property r k v) r kvs)
         = foldl (\<lambda>acc k. if k \<in> set acc then acc else acc @ [k]) (map fst r) (map fst kvs)"
  using assms
proof (induction kvs arbitrary: r)
  case Nil
  then show ?case by simp
next
  case (Cons kv kvs)
  obtain k v where kv: "kv = (k, v)" by (cases kv)
  have pk: "plain_name k" using Cons.prems kv by simp
  have "map fst (foldl (\<lambda>r (k, v). set_property r k v) (set_property r k v) kvs)
        = foldl (\<lambda>acc k. if k \<in> set acc then acc else acc @ [k]) (map fst (set_property r k v)) (map fst kvs)"
    using Cons.prems by (intro Cons.IH) simp
  then show ?case
    by (simp add: kv set_property_keys [OF pk])
qed

lemma assemble_map_of:
  assumes "\<forall>k\<in>set (map fst kvs). plain_name k"
  shows "map_of (foldl (\<lambda>r (k, v). set_property r k v) r kvs) = map_of r ++ map_of (rev kvs)"
  using assms
proof (induction kvs arbitrary: r)
  case Nil
  then show ?case by simp
next
  case (Cons kv kvs)
  obtain k v where kv: "kv = (k, v)" by (cases kv)
  have pk: "plain_name k" using Cons.prems kv by simp
  have "map_of (foldl (\<lambda>r (k, v). set_property r k v) (set_property r k v) kvs)
        = map_of (set_property r k v) ++ map_of (rev kvs)"
    using Cons.prems by (intro Cons.IH) simp
  also have "\<dots> = (map_of r)(k \<mapsto> v) ++ map_of (rev kvs)"
    by (simp add: set_property_map_of [OF pk])
  also have "\<dots> = map_of r ++ map_of (rev (kv # kvs))"
    by (auto simp: kv map_add_def fun_eq_iff split: option.splits)
  finally show ?case
    by (simp add: kv)
qed

lemma build_row_gen_values:
  "build_row F fs r w =
     (case gen_values F fs w of
        (Inl e, w') \<Rightarrow> (Inl e, w')
      | (Inr vs, w') \<Rightarrow>
          (Inr (foldl (\<lambda>r (k, v). set_property r k v) r (zip (map name fs) vs)), w'))"
  by (induction fs arbitrary: r w) (auto split: prod.splits sum.splits)

lemma gen_values_length: "gen_values F fs w = (Inr vs, w') \<Longrightarrow> length vs = length fs"
  by (induction fs arbitrary: vs w) (auto split: prod.splits sum.splits)

lemma gen_values_total:
  assumes "\<forall>f\<in>set fs. \<forall>w. \<exists>v w'. generateFieldValue F f w = (Inr v, w')"
  shows "\<exists>vs w'. gen_values F fs w = (Inr vs, w')"
  using assms
proof (induction fs arbitrary: w)
  case Nil
  then show ?case by simp
next
  case (Cons f fs)
  have "\<exists>v w1. generateFieldValue F f w = (Inr v, w1)"
    using Cons.prems by simp
  then obtain v w1 where v: "generateFieldValue F f w = (Inr v, w1)"
    by blast
  obtain vs w2 where vs: "gen_values F fs w1 = (Inr vs, w2)"
    using Cons.IH [of w1] Cons.prems by auto
  show ?case
    by (simp add: v vs)
qed

lemma build_row_row_of:
  assumes "\<forall>f\<in>set fs. plain_name (name f)"
    and "\<forall>f\<in>set fs. \<forall>w. \<exists>v w'. generateFieldValue F f w = (Inr v, w')"
  shows "\<exists>r vs w'. build_row F fs [] w = (Inr r, w') \<and> gen_values F fs w = (Inr vs, w') \<and> row_of fs vs r"
proof -
  obtain vs w' where vs: "gen_values F fs w = (Inr vs, w')"
    using gen_values_total [OF assms(2)] by blast
  have len: "length vs = length fs"
    using vs by (rule gen_values_length)
  have pn: "\<forall>k\<in>set (map fst (zip (map name fs) vs)). plain_name k"
    using assms(1) len by simp
  show ?thesis
    using assemble_keys [OF pn, of "[]"] assemble_map_of [OF pn, of "[]"] len
    by (simp add: build_row_gen_values vs row_of_def names_in_order_def)
qed

lemma rows_loop_rows:
  assumes "\<forall>f\<in>set fs. plain_name (name f)"
    and "\<forall>f\<in>set fs. \<forall>w. \<exists>v w'. generateFieldValue F f w = (Inr v, w')"
  shows "i \<le> N \<Longrightarrow>
         \<exists>rows w'. rows_loop F fs (of_nat N) i acc w = (Inr (acc @ rows), w')
            \<and> length rows = N - i
            \<and> (\<forall>r\<in>set rows. \<exists>vs w1 w2. gen_values F fs w1 = (Inr vs, w2) \<and> row_of fs vs r)"
proof (induction "N - i" arbitrary: i acc w)
  case 0
  then have "i = N" by simp
  then show ?case
    by (simp add: rows_loop.simps [of F fs "of_nat N" N])
next
  case (Suc d)
  then have lt: "i < N" by simp
  obtain r vs w1 where r: "build_row F fs [] w = (Inr r, w1)"
      and g: "gen_values F fs w = (Inr vs, w1)" and ro: "row_of fs vs r"
    using build_row_row_of [OF assms, of w] by blast
  have "d = N - Suc i" using Suc.hyps(2) by simp
  moreover have "Suc i \<le> N" using lt by simp
  ultimately obtain rows w' where
      rl: "rows_loop F fs (of_nat N) (Suc i) (acc @ [r]) w1 = (Inr ((acc @ [r]) @ rows), w')"
      and len: "length rows = N - Suc i"
      and all: "\<forall>r\<in>set rows. \<exists>vs w1 w2. gen_values F fs w1 = (Inr vs, w2) \<and> row_of fs vs r"
    using Suc.hyps(1) [of "Suc i" "acc @ [r]" w1] by blast
  have "rows_loop F fs (of_nat N) i acc w = (Inr (acc @ (r # rows)), w')"
    using lt by (simp add: rows_loop.simps [of F fs "of_nat N" i] r rl)
  moreover have "length (r # rows) = N - i"
    using len lt by simp
  moreover have "\<forall>r\<in>set (r # rows). \<exists>vs w1 w2. gen_values F fs w1 = (Inr vs, w2) \<and> row_of fs vs r"
    using all g ro by auto
  ultimately show ?case by blast
qed

lemma not_index_b: "\<not> is_array_index ''b''"
  by (simp add: is_array_index_def all_digits_def is_digit_def digit_of_def)

lemma index_1: "is_array_index ''1''"
  by (simp add: is_array_index_def all_digits_def is_digit_def digit_of_def digits_val_def)

text \<open>
  Claim C6 as stated says that each row has the requested names in the requested order.
  The request with the fields \<^verbatim>\<open>b\<close> and \<^verbatim>\<open>1\<close>, in that order, passes the validation, and
  its row has the key \<^verbatim>\<open>1\<close> first: a key that is an array index is enumerated before
  the other keys.
\<close>

theorem rows_order_counterexample:
  "queryParamsSchema_parse
     (Arr [Obj [(''name'', Str ''b''), (''type'', Str ''uuid'')],
           Obj [(''name'', Str ''1''), (''type'', Str ''uuid'')]])
     (Num (Fin 1)) (Num (Fin 3))
   = Inr \<lparr>qfields = [plain_field ''b'' ''uuid'', plain_field ''1'' ''uuid''],
          count = Some 1, seed = Some 3\<rparr>
   \<and> fst (generateMockData stub_faker
            \<lparr>qfields = [plain_field ''b'' ''uuid'', plain_field ''1'' ''uuid''],
             count = Some 1, seed = Some 3\<rparr> stub_world)
     = Inr [[(''1'', Num (Fin 299)), (''b'', Num (Fin 3))]]"
  by (simp add: queryParamsSchema_parse_def field_of_def plain_field_def SUPPORTED_TYPES_def
      generateMockData_def rows_loop_one generateFieldValue_def enum_values_def
      type_handler_def builtin_call_def stub_faker_def stub_call_def stub_world_def lcg_def
      set_property_def not_index_b index_1)

text \<open>
  An exception of the value generator leaves both loops: with the library's
  \<^verbatim>\<open>number.int\<close>, which raises when the bounds are inverted, no row is returned.
\<close>

lemma rows_raise:
  "fst (generateMockData stub_faker
            \<lparr>qfields = [(plain_field ''n'' ''number'')\<lparr>fmin := Some 10, fmax := Some 5\<rparr>],
             count = Some 1, seed = Some 3\<rparr> stub_world) = Inl FakerError"
  by (simp add: plain_field_def 
      generateMockData_def rows_loop_one generateFieldValue_def enum_values_def
      type_handler_def builtin_call_def or_default_def stub_faker_def stub_call_def stub_world_def)

text \<open>
  Claim C6, amended. For a request whose count is the whole number \<open>N\<close> (10 when absent),
  whose field names are ordinary property names and on whose fields the value generator
  does not raise, the orchestrator returns exactly \<open>N\<close> rows; the keys of each row are
  the requested names, each once, in the order of their first occurrence in the schema;
  and each row maps a name to the value generated for the last field of that name.
\<close>

theorem rows_count_names_overwrite:
  assumes "(case count p of Some c \<Rightarrow> c | None \<Rightarrow> 10) = of_nat N"
    and "\<forall>f\<in>set (qfields p). plain_name (name f)"
    and "\<forall>f\<in>set (qfields p). \<forall>w. \<exists>v w'. generateFieldValue F f w = (Inr v, w')"
  shows "\<exists>rows w'. generateMockData F p w = (Inr rows, w')
           \<and> length rows = N
           \<and> (\<forall>r\<in>set rows. \<exists>vs w1 w2.
                 gen_values F (qfields p) w1 = (Inr vs, w2)
                 \<and> map fst r = names_in_order (map name (qfields p))
                 \<and> map_of r = map_of (rev (zip (map name (qfields p)) vs)))"
  using rows_loop_rows [OF assms(2,3), of 0 N "[]"] assms(1)
  by (simp add: generateMockData_def row_of_def)


lemma plain_id: "plain_name ''id''"
  by (simp add: plain_name_def is_array_index_def all_digits_def is_digit_def digit_of_def)

lemma plain_age: "plain_name ''age''"
  by (simp add: plain_name_def is_array_index_def all_digits_def is_digit_def digit_of_def)

theorem rows_count_names_overwrite_witness:
  "\<exists>rows w'.
     generateMockData stub_faker
       \<lparr>qfields = [plain_field ''id'' ''uuid'', plain_field ''age'' ''number'', plain_field ''id'' ''boolean''],
        count = Some 2, seed = Some 3\<rparr> stub_world = (Inr rows, w')
     \<and> length rows = 2 \<and> map fst (hd rows) = [''id'', ''age'']"
proof -
  let ?p = "\<lparr>qfields = [plain_field ''id'' ''uuid'', plain_field ''age'' ''number'', plain_field ''id'' ''boolean''],
        count = Some 2, seed = Some 3\<rparr>"
  have h1: "(case count ?p of Some c \<Rightarrow> c | None \<Rightarrow> 10) = of_nat 2"
    by simp
  have h2: "\<forall>f\<in>set (qfields ?p). plain_name (name f)"
    by (simp add: plain_field_def plain_id plain_age)
  have h3: "\<forall>f\<in>set (qfields ?p). \<forall>w. \<exists>v w'. generateFieldValue stub_faker f w = (Inr v, w')"
    by (simp add: plain_field_def generateFieldValue_def enum_values_def type_handler_def
        builtin_call_def or_default_def stub_faker_def stub_call_def)
  obtain rows w' where r: "generateMockData stub_faker ?p stub_world = (Inr rows, w')"
      and len: "length rows = 2"
      and all: "\<forall>r\<in>set rows. map fst r = names_in_order (map name (qfields ?p))"
    using rows_count_names_overwrite [OF h1 h2 h3, of stub_world] by blast
  have "hd rows \<in> set rows"
    using len by (cases rows) simp_all
  then have "map fst (hd rows) = names_in_order (map name (qfields ?p))"
    using all by blast
  then have m: "map fst (hd rows) = [''id'', ''age'']"
    by (simp add: names_in_order_def plain_field_def)
  show ?thesis
    using r len m by (intro exI [of _ rows] exI [of _ w'] conjI) assumption+
qed


section \<open>Properties of the routes\<close>

lemma rows_loop_fractional:
  "rows_loop F fs (5 / 2) 0 [] w =
     (case build_row F fs [] w of
        (Inl e, w1) \<Rightarrow> (Inl e, w1)
      | (Inr r1, w1) \<Rightarrow>
          (case build_row F fs [] w1 of
             (Inl e, w2) \<Rightarrow> (Inl e, w2)
           | (Inr r2, w2) \<Rightarrow>
               (case build_row F fs [] w2 of
                  (Inl e, w3) \<Rightarrow> (Inl e, w3)
                | (Inr r3, w3) \<Rightarrow> (Inr [r1, r2, r3], w3))))"
  by (simp add: rows_loop.simps [of F fs "5 / 2" 0] rows_loop.simps [of F fs "5 / 2" "Suc 0"]
      rows_loop.simps [of F fs "5 / 2" "Suc (Suc 0)"] rows_loop.simps [of F fs "5 / 2" "Suc (Suc (Suc 0))"]
      split: prod.splits sum.splits)

lemma set_property_id: "set_property [] ''id'' v = [(''id'', v)]"
  by (simp add: set_property_def is_array_index_def all_digits_def is_digit_def digit_of_def)

text \<open>
  Claim C7 says that the count of every request is coerced to an integer. A body with
  \<^verbatim>\<open>count: 2.5\<close> passes the body schema of the POST route, the handler takes the count
  with \<^verbatim>\<open>Number(body.count)\<close> and the validation only bounds it: the request is
  validated with the count 2.5, and the loop \<^verbatim>\<open>i < count\<close> makes three rows (numbers,
  which the serializer returns as they are).
\<close>

theorem post_fractional_count:
  "post_validated H []
     (Obj [(''fields'', Arr [Obj [(''name'', Str ''id''), (''type'', Str ''uuid'')]]),
           (''count'', Num (Fin (5 / 2)))])
   = Inr (Inr \<lparr>qfields = [plain_field ''id'' ''uuid''], count = Some (5 / 2), seed = None\<rparr>)
   \<and> fst (post_generate (H\<lparr>SuperJSON_roundtrip := (\<lambda>data. Inr data)\<rparr>) stub_faker []
            (Obj [(''fields'', Arr [Obj [(''name'', Str ''id''), (''type'', Str ''uuid'')]]),
                  (''count'', Num (Fin (5 / 2)))])
            stub_world)
     = Success 3 [[(''id'', Num (Fin 7))], [(''id'', Num (Fin 599))], [(''id'', Num (Fin 44999))]]"
proof -
  let ?body = "Obj [(''fields'', Arr [Obj [(''name'', Str ''id''), (''type'', Str ''uuid'')]]),
           (''count'', Num (Fin (5 / 2)))]"
  have b: "body_schema ?body = Inr ?body"
    by (simp add: body_schema_def known_keys_def field_keys_def SUPPORTED_TYPES_def)
  have v: "post_validated G [] ?body
      = Inr (Inr \<lparr>qfields = [plain_field ''id'' ''uuid''], count = Some (5 / 2), seed = None\<rparr>)" for G
    by (simp add: post_validated_def b post_params_def post_fields_def post_count_def
        post_seed_def body_prop_def normalizeFields_def normalizeField_def
        queryParamsSchema_parse_def field_of_def plain_field_def SUPPORTED_TYPES_def)
  have g: "fst (generateMockData stub_faker
             \<lparr>qfields = [plain_field ''id'' ''uuid''], count = Some (5 / 2), seed = None\<rparr> stub_world)
      = Inr [[(''id'', Num (Fin 7))], [(''id'', Num (Fin 599))], [(''id'', Num (Fin 44999))]]"
    by (simp add: generateMockData_def rows_loop_fractional generateFieldValue_def enum_values_def
        plain_field_def type_handler_def builtin_call_def stub_faker_def stub_call_def
        stub_world_def lcg_def set_property_id)
  obtain res w1 where gm: "generateMockData stub_faker
             \<lparr>qfields = [plain_field ''id'' ''uuid''], count = Some (5 / 2), seed = None\<rparr> stub_world
             = (res, w1)"
    by (cases "generateMockData stub_faker
             \<lparr>qfields = [plain_field ''id'' ''uuid''], count = Some (5 / 2), seed = None\<rparr> stub_world")
  have res: "res = Inr [[(''id'', Num (Fin 7))], [(''id'', Num (Fin 599))], [(''id'', Num (Fin 44999))]]"
    using g gm by simp
  show ?thesis
    by (simp add: v post_generate_def respond_def gm res)
qed

text \<open>
  What holds of the count: on the GET route it is a whole number, or \<open>NaN\<close> or an
  infinity, which are no numbers for the validation; a number below 1 or above 10000
  fails the validation with an issue on \<^verbatim>\<open>count\<close>; an absent count is 10, on the POST
  route by the body schema, whatever the query holds.
\<close>

lemma parseInt_whole:
  "parseInt s = NaN \<or> parseInt s = PosInf \<or> parseInt s = NegInf
   \<or> (\<exists>k::int. parseInt s = Fin (of_int k))"
proof -
  have w: "round_double (of_nat n) = PosInf \<or> round_double (of_nat n) = NegInf
      \<or> (\<exists>k::int. round_double (of_nat n) = Fin (of_int k))" for n
    using round_double_whole [of "int n"] by simp
  have "\<exists>j::int. - (of_int k :: rat) = of_int j" for k
    by (rule exI [of _ "- k"]) simp
  then have n: "neg_num (round_double (of_nat n)) = PosInf \<or> neg_num (round_double (of_nat n)) = NegInf
      \<or> (\<exists>k::int. neg_num (round_double (of_nat n)) = Fin (of_int k))" for n
    using w [of n] by auto
  show ?thesis
    using w n by (simp add: parseInt_def Let_def)
qed

lemma get_count_whole:
  "get_count H query P = Num NaN \<or> get_count H query P = Num PosInf
   \<or> get_count H query P = Num NegInf \<or> (\<exists>k::int. get_count H query P = Num (Fin (of_int k)))"
proof -
  have ten: "\<exists>k::int. (10::rat) = of_int k"
    by (rule exI [of _ 10]) simp
  show ?thesis
    using parseInt_whole ten by (auto simp: get_count_def)
qed

lemma count_out_of_range:
  assumes "q < 1 \<or> 10000 < q"
  shows "\<exists>issues. queryParamsSchema_parse fs (Num (Fin q)) s = Inl (ZodError issues)
           \<and> ((too_small, [Key ''count'']) \<in> set issues \<or> (too_big, [Key ''count'']) \<in> set issues)"
  using assms by (auto simp: queryParamsSchema_parse_def Let_def)

lemma count_not_finite:
  assumes "n = NaN \<or> n = PosInf \<or> n = NegInf"
  shows "\<exists>issues. queryParamsSchema_parse fs (Num n) s = Inl (ZodError issues)
           \<and> (invalid_type, [Key ''count'']) \<in> set issues"
  using assms by (auto simp: queryParamsSchema_parse_def Let_def)

lemma count_default_get:
  assumes "\<not> truthy (get_prop P ''count'')" and "\<not> truthy (get_prop (Obj query) ''count'')"
  shows "get_count H query P = Num (Fin 10)"
  using assms by (simp add: get_count_def)

lemma count_default_post:
  assumes "body_schema body = Inr parsed" and "get_prop body ''count'' = Undefined"
  shows "post_count H query parsed = Num (Fin 10)"
  using assms
  by (auto simp: body_schema_def Let_def post_count_def body_prop_def
      split: jsval.splits if_splits)

lemma count_out_of_range_post:
  assumes "get_prop (Obj kvs) ''count'' = Num (Fin q)" and "q < 1 \<or> 10000 < q"
  shows "\<exists>issues. post_generate H F query (Obj kvs) w = (Unprocessable issues, w)
           \<and> ((too_small, [Key ''count'']) \<in> set issues \<or> (too_big, [Key ''count'']) \<in> set issues)"
  using assms by (auto simp: post_generate_def post_validated_def body_schema_def Let_def)

lemma count_default_schema:
  "queryParamsSchema_parse fs Undefined s = Inr p \<Longrightarrow> count p = Some 10"
  by (auto simp: queryParamsSchema_parse_def Let_def split: if_splits)


text \<open>
  The serializer runs inside the \<^verbatim>\<open>try\<close> block: rows it cannot encode make the failure
  response, after the generation.
\<close>

lemma respond_not_encodable:
  assumes "generateMockData F p w = (Inr data, w1)" and "SuperJSON_roundtrip H data = Inl e"
  shows "respond H F (Inr p) w = (Failure ''Failed to generate mock data'' e, w1)"
  using assms by (simp add: respond_def)









lemma map_of_opt_attr: "map_of (opt_attr k' x g) k = (if k = k' then map_option g x else None)"
  by (simp add: opt_attr_def split: option.splits)

lemma get_prop_json_form:
  "get_prop (json_form f) ''name'' = Str (name f)"
  "get_prop (json_form f) ''type'' = Str (ftype f)"
  "get_prop (json_form f) ''related'' = json_text (related f)"
  "get_prop (json_form f) ''values'' = json_values (fvalues f)"
  "get_prop (json_form f) ''min'' = json_num (fmin f)"
  "get_prop (json_form f) ''max'' = json_num (fmax f)"
  "get_prop (json_form f) ''length'' = json_num (flength f)"
  "get_prop (json_form f) ''format'' = json_text (format f)"
  by (simp_all add: json_form_def map_add_def map_of_opt_attr json_text_def json_num_def
      json_values_def split: option.splits)

lemma get_prop_qs_form:
  "get_prop (qs_form fmt f) ''name'' = Str (name f)"
  "get_prop (qs_form fmt f) ''type'' = Str (ftype f)"
  "get_prop (qs_form fmt f) ''related'' = json_text (related f)"
  "get_prop (qs_form fmt f) ''values'' = qs_values fmt (fvalues f)"
  "get_prop (qs_form fmt f) ''min'' = qs_num fmt (fmin f)"
  "get_prop (qs_form fmt f) ''max'' = qs_num fmt (fmax f)"
  "get_prop (qs_form fmt f) ''length'' = qs_num fmt (flength f)"
  "get_prop (qs_form fmt f) ''format'' = json_text (format f)"
  by (simp_all add: qs_form_def map_add_def map_of_opt_attr json_text_def qs_num_def
      qs_values_def split: option.splits list.splits)

lemma get_prop_once_form:
  "get_prop (once_form fmt f) ''name'' = Str (name f)"
  "get_prop (once_form fmt f) ''type'' = Str (ftype f)"
  "get_prop (once_form fmt f) ''related'' = opt_text (related f)"
  "get_prop (once_form fmt f) ''values'' = json_values (fvalues f)"
  "get_prop (once_form fmt f) ''min'' = once_num fmt (fmin f)"
  "get_prop (once_form fmt f) ''max'' = once_num fmt (fmax f)"
  "get_prop (once_form fmt f) ''length'' = once_num fmt (flength f)"
  "get_prop (once_form fmt f) ''format'' = opt_text (format f)"
  by (simp_all add: once_form_def)

lemma text_attr:
  "(if truthy (json_text x) then Str (ToString fmt (json_text x)) else Undefined) = opt_text x"
  "(if truthy (opt_text x) then Str (ToString fmt (opt_text x)) else Undefined) = opt_text x"
  by (simp_all add: json_text_def opt_text_def split: option.splits)

lemma json_num_attr:
  "(if truthy (json_num x) then Num (ToNumber fmt (json_num x)) else Undefined) = opt_num x"
  by (simp add: json_num_def opt_num_def split: option.splits)

lemma StringToNumber_empty: "StringToNumber [] = Fin 0"
  by (simp add: StringToNumber_def trim_def)

lemma qs_num_attr:
  assumes "reads_back fmt x"
  shows "(if truthy (qs_num fmt x) then Num (ToNumber fmt (qs_num fmt x)) else Undefined) = once_num fmt x"
  using assms by (simp add: qs_num_def once_num_def reads_back_def split: option.splits)

lemma once_num_attr:
  assumes "reads_back fmt x"
  shows "(if truthy (once_num fmt x) then Num (ToNumber fmt (once_num fmt x)) else Undefined) = opt_num x"
proof (cases x)
  case None
  then show ?thesis by (simp add: once_num_def opt_num_def)
next
  case (Some q)
  have "fmt q = [] \<Longrightarrow> q = 0"
  proof -
    assume e: "fmt q = []"
    have "StringToNumber (fmt q) = Fin q"
      using assms Some by (simp add: reads_back_def)
    then show "q = 0"
      by (simp add: e StringToNumber_empty)
  qed
  then show ?thesis
    using Some by (auto simp: once_num_def opt_num_def)
qed

lemma json_values_attr:
  "(if truthy (json_values x)
    then (if isArray (json_values x) then json_values x else Arr [json_values x])
    else Undefined) = json_values x"
  by (simp add: json_values_def split: option.splits)

lemma strings_arrive_unchanged: "list_all is_string vs \<Longrightarrow> map (\<lambda>v. Str (ToString fmt v)) vs = vs"
proof (induction vs)
  case Nil
  then show ?case by simp
next
  case (Cons v vs)
  then show ?case by (cases v) simp_all
qed

lemma qs_values_attr:
  assumes "case x of None \<Rightarrow> True | Some vs \<Rightarrow> vs \<noteq> [] \<and> list_all is_string vs"
  shows "(if truthy (qs_values fmt x)
    then (if isArray (qs_values fmt x) then qs_values fmt x else Arr [qs_values fmt x])
    else Undefined) = json_values x"
  using assms
  by (simp add: qs_values_def json_values_def strings_arrive_unchanged split: option.splits)

lemma normalizeField_json_form: "normalizeField fmt (json_form f) = Inr (normal_form f)"
proof -
  have "json_form f \<noteq> Undefined" "json_form f \<noteq> Null"
    by (simp_all add: json_form_def)
  then show ?thesis
    unfolding normalizeField_def get_prop_json_form text_attr json_num_attr json_values_attr
      normal_form_def
    by simp
qed

lemma normalizeField_qs_form:
  assumes "notation_independent f" and "numbers_read_back fmt f"
  shows "normalizeField fmt (qs_form fmt f) = Inr (once_form fmt f)"
proof -
  have ne: "qs_form fmt f \<noteq> Undefined" "qs_form fmt f \<noteq> Null"
    by (simp_all add: qs_form_def)
  have v: "case fvalues f of None \<Rightarrow> True | Some vs \<Rightarrow> vs \<noteq> [] \<and> list_all is_string vs"
    and n: "reads_back fmt (fmin f)" "reads_back fmt (fmax f)" "reads_back fmt (flength f)"
    using assms by (simp_all add: notation_independent_def numbers_read_back_def)
  show ?thesis
    using ne
    unfolding normalizeField_def get_prop_qs_form text_attr qs_num_attr [OF n(1)]
      qs_num_attr [OF n(2)] qs_num_attr [OF n(3)] qs_values_attr [OF v] once_form_def
    by simp
qed

lemma normalizeField_once_form:
  assumes "numbers_read_back fmt f"
  shows "normalizeField fmt (once_form fmt f) = Inr (normal_form f)"
proof -
  have ne: "once_form fmt f \<noteq> Undefined" "once_form fmt f \<noteq> Null"
    by (simp_all add: once_form_def)
  have n: "reads_back fmt (fmin f)" "reads_back fmt (fmax f)" "reads_back fmt (flength f)"
    using assms by (simp_all add: numbers_read_back_def)
  show ?thesis
    using ne
    unfolding normalizeField_def get_prop_once_form text_attr once_num_attr [OF n(1)]
      once_num_attr [OF n(2)] once_num_attr [OF n(3)] json_values_attr normal_form_def
    by simp
qed

lemma get_prop_normal_form:
  "get_prop (normal_form f) ''name'' = Str (name f)"
  "get_prop (normal_form f) ''type'' = Str (ftype f)"
  "get_prop (normal_form f) ''related'' = opt_text (related f)"
  "get_prop (normal_form f) ''values'' = json_values (fvalues f)"
  "get_prop (normal_form f) ''min'' = opt_num (fmin f)"
  "get_prop (normal_form f) ''max'' = opt_num (fmax f)"
  "get_prop (normal_form f) ''length'' = opt_num (flength f)"
  "get_prop (normal_form f) ''format'' = opt_text (format f)"
  by (simp_all add: normal_form_def)

lemma opt_num_attr:
  "(if truthy (opt_num x) then Num (ToNumber fmt (opt_num x)) else Undefined) = opt_num x"
  by (simp add: opt_num_def split: option.splits)


text \<open>
  On the normal form of a field the normalizer changes nothing: where no numeric
  attribute is zero and no text is empty, a second pass is harmless.
\<close>

lemma normalizeField_normal_form: "normalizeField fmt (normal_form f) = Inr (normal_form f)"
proof -
  have "normal_form f \<noteq> Undefined" "normal_form f \<noteq> Null"
    by (simp_all add: normal_form_def)
  then have "normalizeField fmt (normal_form f)
      = Inr (Obj [(''name'', Str (name f)), (''type'', Str (ftype f)),
          (''related'', opt_text (related f)),
          (''values'', json_values (fvalues f)),
          (''min'', opt_num (fmin f)), (''max'', opt_num (fmax f)),
          (''length'', opt_num (flength f)),
          (''format'', opt_text (format f))])"
    unfolding normalizeField_def get_prop_normal_form text_attr opt_num_attr json_values_attr
    by simp
  then show ?thesis
    by (simp add: normal_form_def)
qed

lemma normalizeFields_json:
  "normalizeFields fmt (Arr (map json_form schema)) = Inr (Arr (map normal_form schema))"
proof -
  have "map_exn (normalizeField fmt) (map json_form schema) = Inr (map normal_form schema)"
    by (induction schema) (simp_all add: normalizeField_json_form)
  then show ?thesis
    by (simp add: normalizeFields_def)
qed

lemma normalizeFields_qs:
  assumes "\<forall>f\<in>set schema. notation_independent f \<and> numbers_read_back fmt f"
  shows "normalizeFields fmt (Arr (map (qs_form fmt) schema)) = Inr (Arr (map (once_form fmt) schema))"
    and "normalizeFields fmt (Arr (map (once_form fmt) schema)) = Inr (Arr (map normal_form schema))"
proof -
  have "map_exn (normalizeField fmt) (map (qs_form fmt) schema) = Inr (map (once_form fmt) schema)"
    using assms by (induction schema) (simp_all add: normalizeField_qs_form)
  then show "normalizeFields fmt (Arr (map (qs_form fmt) schema)) = Inr (Arr (map (once_form fmt) schema))"
    by (simp add: normalizeFields_def)
  have "map_exn (normalizeField fmt) (map (once_form fmt) schema) = Inr (map normal_form schema)"
    using assms by (induction schema) (simp_all add: normalizeField_once_form)
  then show "normalizeFields fmt (Arr (map (once_form fmt) schema)) = Inr (Arr (map normal_form schema))"
    by (simp add: normalizeFields_def)
qed

lemma raw_level_json:
  "rawQueryString stub_host [(''fields'', Str json_level)] = Inr raw_json_level"
  by (simp add: rawQueryString_def stub_host_def raw_json_level_def)

lemma raw_level_qs:
  "rawQueryString stub_host
     [(''fields[0][name]'', Str ''level''), (''fields[0][type]'', Str ''enum''),
      (''fields[0][values][0]'', Str ''1''), (''fields[0][values][1]'', Str ''2'')] = Inr qs_level"
  by (simp add: rawQueryString_def stub_host_def percent_encode_def unreserved_def qs_level_def)

lemma encoded_level: "percent_encode json_level
  = ''%5B%7B%22name%22%3A%22level%22%2C%22type%22%3A%22enum%22%2C%22values%22%3A%5B1%2C2%5D%7D%5D''"
  by (simp add: percent_encode_def unreserved_def json_level_def)

lemma encoded_age: "percent_encode json_age
  = ''%5B%7B%22name%22%3A%22age%22%2C%22type%22%3A%22number%22%2C%22min%22%3A18%2C%22max%22%3A65%7D%5D''"
  by (simp add: percent_encode_def unreserved_def json_age_def)

lemma parsed_level_json:
  "qs_parse stub_host raw_json_level = Obj [(''fields'', Str json_level)]"
  by (simp add: stub_host_def raw_json_level_def raw_json_age_def encoded_level encoded_age
      qs_age_def qs_level_def)

lemma parsed_level_qs:
  "qs_parse stub_host qs_level
   = Obj [(''fields'', Arr [Obj [(''name'', Str ''level''), (''type'', Str ''enum''),
                                  (''values'', Arr [Str ''1'', Str ''2''])]])]"
  by (simp add: stub_host_def raw_json_age_def encoded_age qs_age_def qs_level_def)

lemma JSON_level:
  "JSON_parse stub_host json_level
   = Some (Arr [Obj [(''name'', Str ''level''), (''type'', Str ''enum''),
                     (''values'', Arr [Num (Fin 1), Num (Fin 2)])]])"
  by (simp add: stub_host_def json_age_def json_level_def)

text \<open>
  Claim C9 as stated says that both notations give the same validated request for every
  schema. For an enum field with the values 1 and 2, the JSON text gives the numbers and
  array notation gives the strings \<^verbatim>\<open>"1"\<close> and \<^verbatim>\<open>"2"\<close>: the normalizer coerces
  \<^verbatim>\<open>min\<close>, \<^verbatim>\<open>max\<close> and \<^verbatim>\<open>length\<close> only.
\<close>

theorem notations_differ_counterexample:
  "get_validated stub_host [(''fields'', Str json_level)]
     = Inr \<lparr>qfields = [(plain_field ''level'' ''enum'')\<lparr>fvalues := Some [Num (Fin 1), Num (Fin 2)]\<rparr>],
            count = Some 10, seed = None\<rparr>
   \<and> get_validated stub_host
       [(''fields[0][name]'', Str ''level''), (''fields[0][type]'', Str ''enum''),
        (''fields[0][values][0]'', Str ''1''), (''fields[0][values][1]'', Str ''2'')]
     = Inr \<lparr>qfields = [(plain_field ''level'' ''enum'')\<lparr>fvalues := Some [Str ''1'', Str ''2'']\<rparr>],
            count = Some 10, seed = None\<rparr>"
  by (simp add: get_validated_def raw_level_json raw_level_qs parsed_level_json parsed_level_qs
      query_fields_def JSON_level normalizeFields_def normalizeField_def get_count_def get_seed_def
      queryParamsSchema_parse_def field_of_def plain_field_def SUPPORTED_TYPES_def)

text \<open>
  An empty sequence of values is the other schema that array notation cannot carry: the
  JSON text gives the empty array, array notation gives no \<^verbatim>\<open>values\<close> at all.
\<close>

lemma empty_values_differ:
  "normalizeField fmt (json_form ((plain_field ''tag'' ''enum'')\<lparr>fvalues := Some []\<rparr>))
   = Inr (Obj [(''name'', Str ''tag''), (''type'', Str ''enum''), (''related'', Undefined),
               (''values'', Arr []), (''min'', Undefined), (''max'', Undefined),
               (''length'', Undefined), (''format'', Undefined)])
   \<and> normalizeField fmt (qs_form fmt ((plain_field ''tag'' ''enum'')\<lparr>fvalues := Some []\<rparr>))
   = Inr (Obj [(''name'', Str ''tag''), (''type'', Str ''enum''), (''related'', Undefined),
               (''values'', Undefined), (''min'', Undefined), (''max'', Undefined),
               (''length'', Undefined), (''format'', Undefined)])"
  by (simp add: normalizeField_def json_form_def qs_form_def opt_attr_def plain_field_def)

text \<open>
  Claim C9, amended. Take a schema whose enum values, where present, are a non-empty
  sequence of strings, a query in which the array-aware parser finds it under
  \<^verbatim>\<open>fields\<close> (array notation) and a query whose \<^verbatim>\<open>fields\<close> is its JSON text, with the
  same count and seed. Both queries give the same validated result. The parsed structure
  is looked at first: in the first query \<^verbatim>\<open>JSON.parse\<close> is never called, whatever else
  the query holds. The last hypothesis is the runtime's guarantee that
  \<^verbatim>\<open>Number(String(x))\<close> is \<open>x\<close>, at the numeric attributes of the schema.
\<close>

theorem notations_agree:
  assumes "rawQueryString H qa = Inr rawa"
    and "get_prop (qs_parse H rawa) ''fields'' = Arr (map (qs_form (number_to_string H)) schema)"
    and "rawQueryString H qj = Inr rawj"
    and "get_prop (qs_parse H rawj) ''fields'' = Str s"
    and "get_prop (Obj qj) ''fields'' = Str s"
    and "JSON_parse H s = Some (Arr (map json_form schema))"
    and "get_count H qa (qs_parse H rawa) = get_count H qj (qs_parse H rawj)"
    and "get_seed H qa (qs_parse H rawa) = get_seed H qj (qs_parse H rawj)"
    and "\<forall>f\<in>set schema. notation_independent f"
    and "\<forall>f\<in>set schema. numbers_read_back (number_to_string H) f"
  shows "get_validated H qa = get_validated H qj"
proof -
  have both: "\<forall>f\<in>set schema. notation_independent f \<and> numbers_read_back (number_to_string H) f"
    using assms(9,10) by simp
  have a: "query_fields H qa (qs_parse H rawa) = Inr (Arr (map normal_form schema))"
    by (simp add: query_fields_def assms(2) normalizeFields_qs [OF both] del: get_prop.simps)
  have j: "query_fields H qj (qs_parse H rawj) = Inr (Arr (map normal_form schema))"
    by (simp add: query_fields_def assms(4,5,6) normalizeFields_json del: get_prop.simps)
  show ?thesis
    by (simp add: get_validated_def Let_def assms(1,3,7,8) a j)
qed


lemma StringToNumber_18: "StringToNumber ''18'' = Fin 18"
  using round_double_nat [of 18]
  by (simp add: StringToNumber_def trim_def is_ws_def radix_literal_def unsigned_decimal_def
      mantissa_of_def is_digit_def digit_of_def digits_val_def)

lemma StringToNumber_65: "StringToNumber ''65'' = Fin 65"
  using round_double_nat [of 65]
  by (simp add: StringToNumber_def trim_def is_ws_def radix_literal_def unsigned_decimal_def
      mantissa_of_def is_digit_def digit_of_def digits_val_def)

text \<open>
  The hypothesis on the printer holds of a number that is a double and is printed as the
  runtime prints it: the double of \<open>1/10\<close> is printed \<^verbatim>\<open>0.1\<close>, which reads back as that
  double.
\<close>

lemma reads_back_tenth:
  assumes "fmt (3602879701896397 / 36028797018963968) = ''0.1''"
  shows "reads_back fmt (Some (3602879701896397 / 36028797018963968))"
  using assms by (simp add: reads_back_def StringToNumber_tenth)

lemma printed_18: "number_to_string stub_host 18 = ''18''"
  by (simp add: stub_host_def show_nat.simps)

lemma printed_65: "number_to_string stub_host 65 = ''65''"
  by (simp add: stub_host_def show_nat.simps)

theorem notations_agree_witness:
  "get_validated stub_host
     [(''fields[0][name]'', Str ''age''), (''fields[0][type]'', Str ''number''),
      (''fields[0][min]'', Str ''18''), (''fields[0][max]'', Str ''65'')]
   = get_validated stub_host [(''fields'', Str json_age)]
   \<and> get_validated stub_host [(''fields'', Str json_age)]
     = Inr \<lparr>qfields = [(plain_field ''age'' ''number'')\<lparr>fmin := Some 18, fmax := Some 65\<rparr>],
            count = Some 10, seed = None\<rparr>"
proof -
  let ?qa = "[(''fields[0][name]'', Str ''age''), (''fields[0][type]'', Str ''number''),
      (''fields[0][min]'', Str ''18''), (''fields[0][max]'', Str ''65'')]"
  let ?qj = "[(''fields'', Str json_age)]"
  let ?schema = "[(plain_field ''age'' ''number'')\<lparr>fmin := Some 18, fmax := Some 65\<rparr>]"
  have h1: "rawQueryString stub_host ?qa = Inr qs_age"
    by (simp add: rawQueryString_def stub_host_def percent_encode_def unreserved_def qs_age_def)
  have pa: "qs_parse stub_host qs_age
      = Obj [(''fields'', Arr [Obj [(''name'', Str ''age''), (''type'', Str ''number''),
                                      (''min'', Str ''18''), (''max'', Str ''65'')]])]"
    by (simp add: stub_host_def qs_age_def)
  have h2: "get_prop (qs_parse stub_host qs_age) ''fields''
      = Arr (map (qs_form (number_to_string stub_host)) ?schema)"
    by (simp add: pa qs_form_def opt_attr_def plain_field_def printed_18 printed_65)
  have h3: "rawQueryString stub_host ?qj = Inr raw_json_age"
    by (simp add: rawQueryString_def stub_host_def raw_json_age_def)
  have pj: "qs_parse stub_host raw_json_age = Obj [(''fields'', Str json_age)]"
    by (simp add: stub_host_def raw_json_age_def encoded_age qs_age_def)
  have h4: "get_prop (qs_parse stub_host raw_json_age) ''fields'' = Str json_age"
    by (simp add: pj)
  have h5: "get_prop (Obj ?qj) ''fields'' = Str json_age"
    by simp
  have h6: "JSON_parse stub_host json_age = Some (Arr (map json_form ?schema))"
    by (simp add: stub_host_def json_form_def opt_attr_def plain_field_def)
  have h7: "get_count stub_host ?qa (qs_parse stub_host qs_age)
      = get_count stub_host ?qj (qs_parse stub_host raw_json_age)"
    by (simp add: get_count_def pa pj)
  have h8: "get_seed stub_host ?qa (qs_parse stub_host qs_age)
      = get_seed stub_host ?qj (qs_parse stub_host raw_json_age)"
    by (simp add: get_seed_def pa pj)
  have h9: "\<forall>f\<in>set ?schema. notation_independent f"
    by (simp add: notation_independent_def plain_field_def)
  have h10: "\<forall>f\<in>set ?schema. numbers_read_back (number_to_string stub_host) f"
    by (simp add: numbers_read_back_def reads_back_def plain_field_def printed_18 printed_65
        StringToNumber_18 StringToNumber_65)
  have agree: "get_validated stub_host ?qa = get_validated stub_host ?qj"
    using h1 h2 h3 h4 h5 h6 h7 h8 h9 h10 by (rule notations_agree)
  have jp: "JSON_parse stub_host json_age
      = Some (Arr [Obj [(''name'', Str ''age''), (''type'', Str ''number''),
                        (''min'', Num (Fin 18)), (''max'', Num (Fin 65))]])"
    by (simp add: stub_host_def)
  have val: "get_validated stub_host ?qj
     = Inr \<lparr>qfields = ?schema, count = Some 10, seed = None\<rparr>"
    by (simp add: get_validated_def h3 pj query_fields_def jp
      normalizeFields_def normalizeField_def get_count_def get_seed_def
      queryParamsSchema_parse_def field_of_def plain_field_def SUPPORTED_TYPES_def)
  show ?thesis
    using agree val by (intro conjI)
qed


end
